theory Spec2Isabelle
  imports Main "HOL-Library.Word" "HOL-Library.Char_ord"
begin

unbundle bit_operations_syntax

section \<open>Data model\<close>

text \<open>
  The C library \<^verbatim>\<open>VCP.h\<close> keeps one serial port in file-level statics and talks to
  the operating system through \<^verbatim>\<open>CreateFile/ReadFile/...\<close> on Windows and
  \<^verbatim>\<open>open/read/...\<close> on POSIX. The C\# class \<^verbatim>\<open>VCPWrapper.Port\<close> wraps the
  Windows build (\<^verbatim>\<open>VCP.dll\<close>) and polls it from a timer.

  The operating system is modelled by the set of handles it has handed out and not yet
  released, the chronological list of calls it received, and the number of read calls
  served so far. What each call answers is an input of the model: an outcome record
  for the calls of one \<^verbatim>\<open>init_COM_port\<close>, a stream of read outcomes, one write outcome.
  The diagnostics printed to \<^verbatim>\<open>stderr\<close> are not modelled.
\<close>

type_synonym u8 = "8 word"
type_synonym u16 = "16 word"
type_synonym dword = "32 word"
type_synonym handle = int

definition INVALID_HANDLE_VALUE :: handle where
  "INVALID_HANDLE_VALUE = - 1"

text \<open>
  The speed constants \<^verbatim>\<open>CBR_110, ...\<close> (Windows) and \<^verbatim>\<open>B0, B50, ...\<close> (POSIX) come
  from system headers; they are kept symbolic, tagged with the number in their name.
\<close>

datatype baud_const = CBR int | B int

datatype stopbits_const = ONESTOPBIT | ONE5STOPBITS | TWOSTOPBITS

record DCB =
  dcb_BaudRate :: baud_const
  dcb_ByteSize :: nat
  dcb_Parity :: u8
  dcb_StopBits :: stopbits_const

record COMMTIMEOUTS =
  ReadIntervalTimeout :: dword
  ReadTotalTimeoutMultiplier :: dword
  ReadTotalTimeoutConstant :: dword
  WriteTotalTimeoutMultiplier :: dword
  WriteTotalTimeoutConstant :: dword

definition MAXDWORD :: dword where
  "MAXDWORD = 0xFFFFFFFF"

text \<open>
  A \<^verbatim>\<open>termios\<close> flag word is the set of the flag macros that are set in it. The
  character-size field selected by the mask \<^verbatim>\<open>CSIZE\<close> is kept apart as the number of
  data bits (clearing the field leaves the smallest size, 5).
\<close>

datatype termios_flag =
    INPCK | IGNPAR | PARMRK | ISTRIP | IGNCR | INLCR | IXON | IXOFF
  | OPOST
  | CLOCAL | CREAD | HUPCL | CSTOPB | PARENB | PARODD
  | ICANON | ECHO | ECHOE | ECHOK | ECHOKE | ECHONL

record termios =
  c_iflag :: "termios_flag set"
  c_oflag :: "termios_flag set"
  c_cflag :: "termios_flag set"
  c_csize :: nat
  c_lflag :: "termios_flag set"
  c_ospeed :: baud_const
  c_ispeed :: baud_const
  c_cc_VMIN :: u8
  c_cc_VTIME :: u8

datatype tcaction = TCSADRAIN | TCSAFLUSH

datatype os_call =
    Call_CreateFile string
  | Call_GetCommState handle
  | Call_SetCommState handle DCB
  | Call_GetCommTimeouts handle
  | Call_SetCommTimeouts handle COMMTIMEOUTS
  | Call_ReadFile handle nat
  | Call_WriteFile handle "u8 list"
  | Call_CloseHandle handle
  | Call_open string
  | Call_tcgetattr handle
  | Call_tcsetattr handle tcaction termios
  | Call_read handle nat
  | Call_write handle "u8 list"
  | Call_close handle

record os_state =
  handles :: "handle set"
  trace :: "os_call list"
  reads_done :: nat

definition os_log :: "os_call \<Rightarrow> os_state \<Rightarrow> os_state" where
  "os_log c os = os\<lparr>trace := trace os @ [c]\<rparr>"

definition os_acquire :: "handle \<Rightarrow> os_state \<Rightarrow> os_state" where
  "os_acquire h os = os\<lparr>handles := insert h (handles os)\<rparr>"

definition os_release :: "handle \<Rightarrow> os_state \<Rightarrow> os_state" where
  "os_release h os = os\<lparr>handles := handles os - {h}\<rparr>"

text \<open>Outcomes of the operating-system calls made by one \<^verbatim>\<open>init_COM_port\<close>.\<close>

record win_open_env =
  CreateFile_result :: "nat option"
  GetCommState_result :: "DCB option"
  SetCommState_ok :: bool
  GetCommTimeouts_result :: "COMMTIMEOUTS option"
  SetCommTimeouts_ok :: bool

record posix_open_env =
  open_result :: "nat option"
  tcgetattr_result :: "termios option"
  tcsetattr_ok :: bool

text \<open>
  Outcome of one read: the bytes the device has ready, or a failure with the code that
  \<^verbatim>\<open>GetLastError()\<close> (an unsigned 32-bit \<^verbatim>\<open>DWORD\<close>) or \<^verbatim>\<open>errno\<close> (an \<^verbatim>\<open>int\<close>) reports.
\<close>

datatype win_read_outcome = Win_read_ok "u8 list" | Win_read_fail dword
datatype posix_read_outcome = Posix_read_ok "u8 list" | Posix_read_fail int
datatype win_write_outcome = Win_write_ok nat | Win_write_fail dword
datatype posix_write_outcome = Posix_write_ok nat | Posix_write_fail int

text \<open>The file-level statics of \<^verbatim>\<open>VCP.h\<close>, one record per platform.\<close>

record win_globals =
  hComm :: handle
  DCBinitial :: DCB
  TIMEOUTinitial :: COMMTIMEOUTS

record posix_globals =
  hComm_fd :: handle
  termiosInitial :: termios

section \<open>The C library\<close>

subsection \<open>\<^verbatim>\<open>init_COM_port\<close>\<close>

definition BaudRno_win :: "int list" where
  "BaudRno_win = [110, 300, 600, 1200, 2400, 4800, 9600, 14400,
                  19200, 38400, 57600, 115200, 128000, 256000]"

definition BaudR_win :: "baud_const list" where
  "BaudR_win = map CBR BaudRno_win"

definition BaudRno_posix :: "int list" where
  "BaudRno_posix = [0, 50, 75, 110, 134, 150, 200, 300, 600, 1200, 1800,
                    2400, 4800, 9600, 19200, 38400, 57600, 115200, 230400]"

definition BaudR_posix :: "baud_const list" where
  "BaudR_posix = map B BaudRno_posix"

text \<open>
  The loop \<^verbatim>\<open>for(i=0; i<n; i++) if(baudRate == BaudRno[i]){ ...BaudR[i]...; break; }\<close>:
  the first matching entry yields its constant; without a match nothing is assigned.
\<close>

fun baud_loop :: "int \<Rightarrow> int list \<Rightarrow> baud_const list \<Rightarrow> baud_const option" where
  "baud_loop baudRate (no # nos) (c # cs) =
     (if baudRate = no then Some c else baud_loop baudRate nos cs)"
| "baud_loop baudRate _ _ = None"

definition win_settings :: "DCB \<Rightarrow> int \<Rightarrow> u8 \<Rightarrow> u8 \<Rightarrow> DCB" where
  "win_settings initial baudRate parityBit stopBits =
     (let s1 = initial\<lparr>dcb_ByteSize := 8\<rparr>;
          s2 = (case baud_loop baudRate BaudRno_win BaudR_win of
                  Some c \<Rightarrow> s1\<lparr>dcb_BaudRate := c\<rparr>
                | None \<Rightarrow> s1);
          s3 = s2\<lparr>dcb_Parity := (if parityBit < 3 then parityBit else 0)\<rparr>
      in s3\<lparr>dcb_StopBits := (if stopBits = 2 then TWOSTOPBITS else ONESTOPBIT)\<rparr>)"

definition win_timeouts :: "COMMTIMEOUTS \<Rightarrow> COMMTIMEOUTS" where
  "win_timeouts initial =
     initial\<lparr>ReadIntervalTimeout := MAXDWORD,
             ReadTotalTimeoutMultiplier := 0,
             ReadTotalTimeoutConstant := 0,
             WriteTotalTimeoutMultiplier := 0,
             WriteTotalTimeoutConstant := 0\<rparr>"

definition init_COM_port_win ::
  "win_open_env \<Rightarrow> string \<Rightarrow> int \<Rightarrow> u8 \<Rightarrow> u8 \<Rightarrow> u8 \<Rightarrow> win_globals \<Rightarrow> os_state
     \<Rightarrow> int \<times> win_globals \<times> os_state" where
  "init_COM_port_win env portName baudRate parityBit stopBits mode g os0 =
     (let os1 = os_log (Call_CreateFile portName) os0 in
      case CreateFile_result env of
        None \<Rightarrow> (- 1, g\<lparr>hComm := INVALID_HANDLE_VALUE\<rparr>, os1)
      | Some n \<Rightarrow>
         (let h = int n;
              g1 = g\<lparr>hComm := h\<rparr>;
              os2 = os_log (Call_GetCommState h) (os_acquire h os1) in
          case GetCommState_result env of
            None \<Rightarrow> (- 1, g1, os_release h (os_log (Call_CloseHandle h) os2))
          | Some dcb \<Rightarrow>
             (let g2 = g1\<lparr>DCBinitial := dcb\<rparr>;
                  DCBsettings = win_settings dcb baudRate parityBit stopBits;
                  os3 = os_log (Call_SetCommState h DCBsettings) os2 in
              if \<not> SetCommState_ok env
              then (- 1, g2, os_release h (os_log (Call_CloseHandle h) os3))
              else
               (let os4 = os_log (Call_GetCommTimeouts h) os3 in
                case GetCommTimeouts_result env of
                  None \<Rightarrow> (- 1, g2, os_release h (os_log (Call_CloseHandle h) os4))
                | Some t \<Rightarrow>
                   (let g3 = g2\<lparr>TIMEOUTinitial := t\<rparr>;
                        os5 = os_log (Call_SetCommTimeouts h (win_timeouts t)) os4 in
                    if \<not> SetCommTimeouts_ok env
                    then (- 1, g3, os_release h (os_log (Call_CloseHandle h) os5))
                    else (0, g3, os5))))))"

definition posix_settings :: "termios \<Rightarrow> int \<Rightarrow> u8 \<Rightarrow> u8 \<Rightarrow> termios" where
  "posix_settings initial baudRate parityBit stopBits =
     (let s1 = initial\<lparr>c_iflag := c_iflag initial \<union> {INPCK, IGNPAR}\<rparr>;
          s2 = s1\<lparr>c_iflag := c_iflag s1 - {PARMRK, ISTRIP, IGNCR, INLCR}\<rparr>;
          s3 = s2\<lparr>c_iflag := c_iflag s2 - {IXON, IXOFF}\<rparr>;
          s4 = s3\<lparr>c_oflag := c_oflag s3 - {OPOST}\<rparr>;
          s5 = s4\<lparr>c_cflag := c_cflag s4 \<union> {CLOCAL, CREAD}\<rparr>;
          s6 = s5\<lparr>c_cflag := c_cflag s5 - {HUPCL}\<rparr>;
          s7 = s6\<lparr>c_cflag := c_cflag s6 - {CSTOPB, PARENB}, c_csize := 5\<rparr>;
          s8 = s7\<lparr>c_lflag := c_lflag s7 - {ICANON}\<rparr>;
          s9 = s8\<lparr>c_lflag := c_lflag s8 - {ECHO, ECHOE, ECHOK, ECHOKE, ECHONL}\<rparr>;
          s10 = s9\<lparr>c_csize := 8\<rparr>;
          s11 = (case baud_loop baudRate BaudRno_posix BaudR_posix of
                   Some c \<Rightarrow> s10\<lparr>c_ospeed := c, c_ispeed := c\<rparr>
                 | None \<Rightarrow> s10);
          s12 = s11\<lparr>c_cflag := c_cflag s11 \<union> (if parityBit = 0 then {} else {PARENB})\<rparr>;
          s13 = s12\<lparr>c_cflag := c_cflag s12 \<union> (if parityBit = 1 then {PARODD} else {})\<rparr>;
          s14 = s13\<lparr>c_cflag := c_cflag s13 \<union> (if stopBits = 2 then {CSTOPB} else {})\<rparr>
      in s14\<lparr>c_cc_VMIN := 0, c_cc_VTIME := 0\<rparr>)"

definition init_COM_port_posix ::
  "posix_open_env \<Rightarrow> string \<Rightarrow> int \<Rightarrow> u8 \<Rightarrow> u8 \<Rightarrow> u8 \<Rightarrow> posix_globals \<Rightarrow> os_state
     \<Rightarrow> int \<times> posix_globals \<times> os_state" where
  "init_COM_port_posix env portName baudRate parityBit stopBits mode g os0 =
     (let os1 = os_log (Call_open portName) os0;
          fd = (case open_result env of None \<Rightarrow> - 1 | Some n \<Rightarrow> int n);
          g1 = g\<lparr>hComm_fd := fd\<rparr> in
      if fd < 0 then (- 1, g1, os1)
      else
       (let os2 = os_log (Call_tcgetattr fd) (os_acquire fd os1) in
        case tcgetattr_result env of
          None \<Rightarrow> (- 1, g1, os_release fd (os_log (Call_close fd) os2))
        | Some t \<Rightarrow>
           (let g2 = g1\<lparr>termiosInitial := t\<rparr>;
                termiosSettings = posix_settings t baudRate parityBit stopBits;
                os3 = os_log (Call_tcsetattr fd TCSADRAIN termiosSettings) os2 in
            if \<not> tcsetattr_ok env
            then (- 1, g2, os_release fd (os_log (Call_close fd) os3))
            else (0, g2, os3))))"

subsection \<open>\<^verbatim>\<open>poll_COM_port\<close>\<close>

text \<open>
  The operating system stores at most the requested number of bytes at the start of the
  buffer. \<^verbatim>\<open>poll_COM_port\<close> returns an \<^verbatim>\<open>int\<close>: on Windows \<^verbatim>\<open>0-GetLastError()\<close>
  is computed on unsigned 32-bit values and then read as signed. The constant
  \<^verbatim>\<open>EWOULDBLOCK\<close> comes from \<^verbatim>\<open>errno.h\<close> and is a parameter.
\<close>

definition fill_buffer :: "u8 list \<Rightarrow> u8 list \<Rightarrow> u8 list" where
  "fill_buffer got buffer = got @ drop (length got) buffer"

definition ReadFile ::
  "(nat \<Rightarrow> win_read_outcome) \<Rightarrow> handle \<Rightarrow> u8 list \<Rightarrow> nat \<Rightarrow> os_state
     \<Rightarrow> (dword + u8 list \<times> nat) \<times> os_state" where
  "ReadFile rd h buffer n os =
     (let os' = (os_log (Call_ReadFile h n) os)\<lparr>reads_done := Suc (reads_done os)\<rparr> in
      case rd (reads_done os) of
        Win_read_ok chunk \<Rightarrow>
          (Inr (fill_buffer (take n chunk) buffer, length (take n chunk)), os')
      | Win_read_fail e \<Rightarrow> (Inl e, os'))"

definition poll_COM_port_win ::
  "(nat \<Rightarrow> win_read_outcome) \<Rightarrow> win_globals \<Rightarrow> u8 list \<Rightarrow> u16 \<Rightarrow> os_state
     \<Rightarrow> int \<times> u8 list \<times> os_state" where
  "poll_COM_port_win rd g buffer length' os =
     (case ReadFile rd (hComm g) buffer (unat length') os of
        (Inr (buffer', len), os') \<Rightarrow> (int len, buffer', os')
      | (Inl e, os') \<Rightarrow> (sint (0 - e), buffer, os'))"

definition posix_read ::
  "(nat \<Rightarrow> posix_read_outcome) \<Rightarrow> handle \<Rightarrow> u8 list \<Rightarrow> nat \<Rightarrow> os_state
     \<Rightarrow> (int + u8 list \<times> nat) \<times> os_state" where
  "posix_read rd fd buffer n os =
     (let os' = (os_log (Call_read fd n) os)\<lparr>reads_done := Suc (reads_done os)\<rparr> in
      case rd (reads_done os) of
        Posix_read_ok chunk \<Rightarrow>
          (Inr (fill_buffer (take n chunk) buffer, length (take n chunk)), os')
      | Posix_read_fail errno \<Rightarrow> (Inl errno, os'))"

definition poll_COM_port_posix ::
  "int \<Rightarrow> (nat \<Rightarrow> posix_read_outcome) \<Rightarrow> posix_globals \<Rightarrow> u8 list \<Rightarrow> u16 \<Rightarrow> os_state
     \<Rightarrow> int \<times> u8 list \<times> os_state" where
  "poll_COM_port_posix EWOULDBLOCK rd g buffer length' os =
     (case posix_read rd (hComm_fd g) buffer (unat length') os of
        (Inr (buffer', len), os') \<Rightarrow> (int len, buffer', os')
      | (Inl errno, os') \<Rightarrow>
          (if errno = EWOULDBLOCK then (0, buffer, os') else (0 - errno, buffer, os')))"

subsection \<open>\<^verbatim>\<open>COM_port_send_buffer\<close>\<close>

definition COM_port_send_buffer_win ::
  "win_write_outcome \<Rightarrow> win_globals \<Rightarrow> u8 list \<Rightarrow> u8 \<Rightarrow> os_state \<Rightarrow> int \<times> os_state" where
  "COM_port_send_buffer_win wr g buffer length' os =
     (let os' = os_log (Call_WriteFile (hComm g) (take (unat length') buffer)) os in
      case wr of
        Win_write_ok len \<Rightarrow> (int (min len (unat length')), os')
      | Win_write_fail e \<Rightarrow> (sint (0 - e), os'))"

definition COM_port_send_buffer_posix ::
  "posix_write_outcome \<Rightarrow> posix_globals \<Rightarrow> u8 list \<Rightarrow> u8 \<Rightarrow> os_state \<Rightarrow> int \<times> os_state" where
  "COM_port_send_buffer_posix wr g buffer length' os =
     (let os' = os_log (Call_write (hComm_fd g) (take (unat length') buffer)) os in
      case wr of
        Posix_write_ok len \<Rightarrow> (int (min len (unat length')), os')
      | Posix_write_fail errno \<Rightarrow> (0 - errno, os'))"

subsection \<open>\<^verbatim>\<open>close_COM_port\<close>\<close>

definition close_COM_port_win :: "win_globals \<Rightarrow> os_state \<Rightarrow> win_globals \<times> os_state" where
  "close_COM_port_win g os =
     (let h = hComm g;
          os1 = os_log (Call_SetCommState h (DCBinitial g)) os;
          os2 = os_log (Call_SetCommTimeouts h (TIMEOUTinitial g)) os1;
          os3 = os_release h (os_log (Call_CloseHandle h) os2)
      in (g\<lparr>hComm := INVALID_HANDLE_VALUE\<rparr>, os3))"

definition close_COM_port_posix :: "posix_globals \<Rightarrow> os_state \<Rightarrow> posix_globals \<times> os_state" where
  "close_COM_port_posix g os =
     (let fd = hComm_fd g;
          os1 = os_log (Call_tcsetattr fd TCSAFLUSH (termiosInitial g)) os;
          os2 = os_release fd (os_log (Call_close fd) os1)
      in (g\<lparr>hComm_fd := - 1\<rparr>, os2))"

subsection \<open>\<^verbatim>\<open>ascii2hex\<close> and \<^verbatim>\<open>hex2ascii\<close>\<close>

text \<open>
  A \<^verbatim>\<open>char*\<close> argument is the list of the characters before the terminating NUL; the
  index \<^verbatim>\<open>i\<close> is a \<^verbatim>\<open>uint8_t\<close>, so \<^verbatim>\<open>str[i]\<close> only ever reads the first 256 cells. The
  output arrays are indexed by \<^verbatim>\<open>uint8_t\<close> counters as well and are modelled as
  functions from the index to the byte stored there. The loop body is the same three
  range tests as in the source; whether \<^verbatim>\<open>char\<close> is signed does not matter to them,
  since every byte above 127 fails each test either way.
\<close>

definition str_at :: "string \<Rightarrow> u8 \<Rightarrow> u8" where
  "str_at str i = (if unat i < length str then of_char (str ! unat i) else 0)"

fun ascii2hex_body :: "u8 \<Rightarrow> (u8 \<Rightarrow> u8) \<times> u8 \<times> u8 \<Rightarrow> (u8 \<Rightarrow> u8) \<times> u8 \<times> u8" where
  "ascii2hex_body c (data, j, mid) =
     (if 48 \<le> c \<and> c \<le> 57 then
        (if mid \<noteq> 0 then (data(j := data j OR (c - 48)), j + 1, 0)
         else (data(j := push_bit 4 (c - 48)), j, 1))
      else if 65 \<le> c \<and> c \<le> 70 then
        (if mid \<noteq> 0 then (data(j := data j OR (c - 55)), j + 1, 0)
         else (data(j := push_bit 4 (c - 55)), j, 1))
      else if 97 \<le> c \<and> c \<le> 102 then
        (if mid \<noteq> 0 then (data(j := data j OR (c - 87)), j + 1, 0)
         else (data(j := push_bit 4 (c - 87)), j, 1))
      else (data, j, mid))"

partial_function (option) ascii2hex_loop ::
  "string \<Rightarrow> u8 \<Rightarrow> (u8 \<Rightarrow> u8) \<times> u8 \<times> u8 \<Rightarrow> ((u8 \<Rightarrow> u8) \<times> u8) option" where
  "ascii2hex_loop str i st =
     (if str_at str i = 0
      then (case st of (data, j, mid) \<Rightarrow> Some (data, if mid \<noteq> 0 then j + 1 else j))
      else ascii2hex_loop str (i + 1) (ascii2hex_body (str_at str i) st))"

declare ascii2hex_loop.simps [code]

definition ascii2hex :: "string \<Rightarrow> (u8 \<Rightarrow> u8) \<Rightarrow> ((u8 \<Rightarrow> u8) \<times> u8) option" where
  "ascii2hex str data = ascii2hex_loop str 0 (data, 0, 0)"

function hex2ascii_loop ::
  "(u8 \<Rightarrow> u8) \<Rightarrow> (u8 \<Rightarrow> u8) \<Rightarrow> u8 \<Rightarrow> u8 \<Rightarrow> u8 \<Rightarrow> (u8 \<Rightarrow> u8) \<times> u8" where
  "hex2ascii_loop data str len i j =
     (if len \<noteq> 0 then
        (let x = drop_bit 4 (data i AND 0xF0);
             y = data i AND 0x0F;
             str1 = str(j := (if 10 \<le> x then x + 55 else x + 48));
             str2 = str1(j + 1 := (if 10 \<le> y then y + 55 else y + 48))
         in hex2ascii_loop data str2 (len - 1) (i + 1) (j + 1 + 1))
      else (str(j := 0), j))"
  by pat_completeness auto
termination
proof (relation "measure (\<lambda>(data, str, len, i, j). unat len)")
  show "wf (measure (\<lambda>(data, str, len, i, j). unat len))" by simp
next
  fix data str :: "u8 \<Rightarrow> u8" and len i j x y :: u8 and str1 str2 :: "u8 \<Rightarrow> u8"
  assume "len \<noteq> 0"
  then have "unat (len - 1) < unat len"
    by (simp add: unat_minus_one unat_gt_0 word_neq_0_conv)
  then show "((data, str2, len - 1, i + 1, j + 1 + 1), (data, str, len, i, j))
               \<in> measure (\<lambda>(data, str, len, i, j). unat len)"
    by simp
qed

definition hex2ascii :: "(u8 \<Rightarrow> u8) \<Rightarrow> (u8 \<Rightarrow> u8) \<Rightarrow> u8 \<Rightarrow> (u8 \<Rightarrow> u8) \<times> u8" where
  "hex2ascii data str len = hex2ascii_loop data str len 0 0"

text \<open>The bytes an array holds in its first \<open>len\<close> cells, and the C string a buffer holds.\<close>

definition bytes_of :: "(u8 \<Rightarrow> u8) \<Rightarrow> u8 \<Rightarrow> u8 list" where
  "bytes_of data len = map (\<lambda>k. data (of_nat k)) [0..<unat len]"

definition c_string :: "(u8 \<Rightarrow> u8) \<Rightarrow> u8 list" where
  "c_string buf = takeWhile (\<lambda>b. b \<noteq> 0) (map (\<lambda>k. buf (of_nat k)) [0..<256])"

text \<open>
  The round trip as the test program performs it: \<^verbatim>\<open>ascii2hex(exHex, hex, &len)\<close>
  followed by \<^verbatim>\<open>hex2ascii(hex, buf, len)\<close>, then reading \<^verbatim>\<open>buf\<close> as a string.
\<close>

definition hex_roundtrip :: "string \<Rightarrow> (u8 \<Rightarrow> u8) \<Rightarrow> (u8 \<Rightarrow> u8) \<Rightarrow> u8 list option" where
  "hex_roundtrip s hex buf =
     (case ascii2hex s hex of
        None \<Rightarrow> None
      | Some (hex', len) \<Rightarrow> Some (c_string (fst (hex2ascii hex' buf len))))"

subsection \<open>The conversions as the specification words them\<close>

definition hex_digit_val :: "char \<Rightarrow> nat option" where
  "hex_digit_val c =
     (if CHR ''0'' \<le> c \<and> c \<le> CHR ''9'' then Some (of_char c - of_char CHR ''0'')
      else if CHR ''A'' \<le> c \<and> c \<le> CHR ''F'' then Some (of_char c - of_char CHR ''A'' + 10)
      else if CHR ''a'' \<le> c \<and> c \<le> CHR ''f'' then Some (of_char c - of_char CHR ''a'' + 10)
      else None)"

fun pack_nibbles :: "nat list \<Rightarrow> nat list" where
  "pack_nibbles [] = []"
| "pack_nibbles [a] = [16 * a]"
| "pack_nibbles (a # b # r) = (16 * a + b) # pack_nibbles r"

definition ascii_to_hex :: "string \<Rightarrow> nat list" where
  "ascii_to_hex text = pack_nibbles (List.map_filter hex_digit_val text)"

definition hex_char :: "nat \<Rightarrow> char" where
  "hex_char n = (if n < 10 then char_of (of_char CHR ''0'' + n)
                 else char_of (of_char CHR ''A'' + (n - 10)))"

definition hex_to_ascii :: "nat list \<Rightarrow> string" where
  "hex_to_ascii bs = concat (map (\<lambda>b. [hex_char (b div 16), hex_char (b mod 16)]) bs)"

definition hex_upper :: "char \<Rightarrow> char" where
  "hex_upper c = (if CHR ''a'' \<le> c \<and> c \<le> CHR ''f''
                  then char_of (of_char c - (of_char CHR ''a'' - of_char CHR ''A'' :: nat))
                  else c)"

section \<open>The C\# wrapper \<^verbatim>\<open>VCPWrapper.Port\<close>\<close>

text \<open>
  Exceptions are values. A \<^verbatim>\<open>Win32Exception\<close> is built from
  \<^verbatim>\<open>Marshal.GetLastWin32Error()\<close>; the code it carries is not modelled.
\<close>

datatype exn =
    ArgumentException string
  | ArgumentNullException string
  | InvalidOperationException string
  | Win32Exception

text \<open>
  The event \<^verbatim>\<open>DataRecived\<close> is \<^verbatim>\<open>null\<close> exactly when nobody has subscribed: the field
  records whether a handler is registered. Raising the event appends the byte array
  handed to the handlers to the list of notifications emitted so far.
\<close>

record Port =
  PortName :: "string option"
  BaudRate :: int
  Parity :: u8
  StopBits :: u8
  PortOpen :: bool
  DataRecived :: bool
  dataPoller_Enabled :: bool

record world =
  w_os :: os_state
  w_vcp :: win_globals
  w_emitted :: "u8 list list"

definition BaudRates :: "int list" where
  "BaudRates = [110, 300, 600, 1200, 2400, 4800, 9600, 14400,
                19200, 38400, 57600, 115200, 128000, 256000]"

definition pollRate :: nat where
  "pollRate = 500"

definition bufferLength :: int where
  "bufferLength = 500"

text \<open>
  \<^verbatim>\<open>Array.BinarySearch\<close> belongs to the .NET base library, not to this repository. It
  is modelled after its documented contract and reference implementation: the index
  of the value when it is found, otherwise the bitwise complement \<^verbatim>\<open>~lo\<close> of the index
  where the search stopped, which is negative.
\<close>

function BinarySearch_loop :: "int list \<Rightarrow> int \<Rightarrow> int \<Rightarrow> int \<Rightarrow> int" where
  "BinarySearch_loop array x lo hi =
     (if lo \<le> hi then
        (let i = lo + (hi - lo) div 2 in
         if array ! nat i = x then i
         else if array ! nat i < x then BinarySearch_loop array x (i + 1) hi
         else BinarySearch_loop array x lo (i - 1))
      else - lo - 1)"
  by pat_completeness auto
termination
  by (relation "measure (\<lambda>(array, x, lo, hi). nat (hi - lo + 1))") auto

definition BinarySearch :: "int list \<Rightarrow> int \<Rightarrow> int" where
  "BinarySearch array x = BinarySearch_loop array x 0 (int (length array) - 1)"

definition Port_new :: "string option \<Rightarrow> int \<Rightarrow> u8 \<Rightarrow> u8 \<Rightarrow> exn + Port" where
  "Port_new portName baudRate parityBit stopBits =
     (if \<not> (BinarySearch BaudRates baudRate > 0)
      then Inl (ArgumentException ''Unsupported baudRate.'')
      else Inr \<lparr>PortName = portName, BaudRate = baudRate, Parity = parityBit,
                StopBits = stopBits, PortOpen = False, DataRecived = False,
                dataPoller_Enabled = False\<rparr>)"

definition Port_Open :: "win_open_env \<Rightarrow> Port \<Rightarrow> world \<Rightarrow> (exn + unit) \<times> Port \<times> world" where
  "Port_Open env this w =
     (if PortOpen this then (Inr (), this, w)
      else case PortName this of
        None \<Rightarrow> (Inl (ArgumentNullException ''portName''), this, w)
      | Some name \<Rightarrow>
         (case init_COM_port_win env name (BaudRate this) (Parity this) (StopBits this) 0
                 (w_vcp w) (w_os w) of
            (r, g', os') \<Rightarrow>
              (let w' = w\<lparr>w_vcp := g', w_os := os'\<rparr> in
               if r \<noteq> 0 then (Inl Win32Exception, this, w')
               else (Inr (), this\<lparr>PortOpen := True, dataPoller_Enabled := True\<rparr>, w'))))"

definition Port_Close :: "Port \<Rightarrow> world \<Rightarrow> Port \<times> world" where
  "Port_Close this w =
     (if \<not> PortOpen this then (this, w)
      else case close_COM_port_win (w_vcp w) (w_os w) of
        (g', os') \<Rightarrow> (this\<lparr>PortOpen := False\<rparr>, w\<lparr>w_vcp := g', w_os := os'\<rparr>))"

definition Port_SendBytes ::
  "win_write_outcome \<Rightarrow> Port \<Rightarrow> u8 list option \<Rightarrow> world \<Rightarrow> (exn + unit) \<times> world" where
  "Port_SendBytes wr this data w =
     (if \<not> PortOpen this
      then (Inl (InvalidOperationException ''Cannot write data to an unopened port.''), w)
      else case data of
        None \<Rightarrow> (Inl (ArgumentNullException ''data''), w)
      | Some bytes \<Rightarrow>
         (if length bytes = 0
          then (Inl (ArgumentException ''data must contain 1 or more bytes.''), w)
          else if length bytes > 255
          then (Inl (ArgumentException ''data must be less than 255 bytes in length.''), w)
          else case COM_port_send_buffer_win wr (w_vcp w) bytes (of_nat (length bytes)) (w_os w) of
            (r, os') \<Rightarrow>
              (if r < 0 then (Inl Win32Exception, w\<lparr>w_os := os'\<rparr>)
               else (Inr (), w\<lparr>w_os := os'\<rparr>))))"

text \<open>
  One timer tick runs \<^verbatim>\<open>Poll\<close>. The method calls itself while reads fill the buffer,
  for as long as the device keeps supplying full buffers, so it is a partial function:
  \<open>None\<close> stands for a tick that never ends. \<^verbatim>\<open>Array.Copy\<close> raises an
  \<^verbatim>\<open>ArgumentException\<close> when asked for more elements than the buffer holds.
\<close>

definition raise_DataRecived :: "Port \<Rightarrow> int \<Rightarrow> u8 list \<Rightarrow> world \<Rightarrow> exn + world" where
  "raise_DataRecived this bytesRecived buffer w =
     (if DataRecived this then
        (if nat bytesRecived > length buffer
         then Inl (ArgumentException ''Source array was not long enough.'')
         else Inr (w\<lparr>w_emitted := w_emitted w @ [take (nat bytesRecived) buffer]\<rparr>))
      else Inr w)"

partial_function (option) Poll ::
  "(nat \<Rightarrow> win_read_outcome) \<Rightarrow> Port \<Rightarrow> world \<Rightarrow> ((exn + unit) \<times> world) option" where
  "Poll rd this w =
     (case poll_COM_port_win rd (w_vcp w) (replicate (nat bufferLength) 0)
             (word_of_int bufferLength) (w_os w) of
        (bytesRecived, buffer, os') \<Rightarrow>
          (let w1 = w\<lparr>w_os := os'\<rparr> in
           if bytesRecived < 0 then Some (Inl Win32Exception, w1)
           else if bytesRecived > 0 then
             (case raise_DataRecived this bytesRecived buffer w1 of
                Inl e \<Rightarrow> Some (Inl e, w1)
              | Inr w2 \<Rightarrow>
                  if bytesRecived = bufferLength then Poll rd this w2
                  else Some (Inr (), w2))
           else Some (Inr (), w1)))"

declare Poll.simps [code]

section \<open>Auxiliary definitions for the proofs\<close>

definition zero_buf :: "u8 \<Rightarrow> u8" where
  "zero_buf i = 0"

text \<open>
  Loop invariant of \<^verbatim>\<open>ascii2hex\<close>: after the hex digits \<open>ns\<close> have been consumed, \<open>j\<close>
  counts the completed bytes, \<open>mid\<close> tells whether a half byte is pending, and the
  array holds the packed digits, the pending half byte included.
\<close>

definition packed :: "nat list \<Rightarrow> (u8 \<Rightarrow> u8) \<times> u8 \<times> u8 \<Rightarrow> bool" where
  "packed ns st = (case st of (d, j, m) \<Rightarrow>
      unat j = length ns div 2 \<and> m = (if odd (length ns) then 1 else 0) \<and>
      map (\<lambda>k. unat (d (of_nat k))) [0..<(length ns + 1) div 2] = pack_nibbles ns)"

text \<open>
  The specification files three exceptions of the wrapper under its \<open>UsageError\<close>:
  sending while not open, a missing or empty buffer, an oversized buffer.
\<close>

fun is_UsageError :: "exn \<Rightarrow> bool" where
  "is_UsageError (ArgumentException m) = True"
| "is_UsageError (ArgumentNullException m) = True"
| "is_UsageError (InvalidOperationException m) = True"
| "is_UsageError Win32Exception = False"

text \<open>The state of the operating system after one more \<^verbatim>\<open>ReadFile\<close> of a poll.\<close>

definition after_ReadFile :: "win_globals \<Rightarrow> os_state \<Rightarrow> os_state" where
  "after_ReadFile g os =
     (os_log (Call_ReadFile (hComm g) (nat bufferLength)) os)\<lparr>reads_done := Suc (reads_done os)\<rparr>"

fun read_bytes :: "win_read_outcome \<Rightarrow> u8 list" where
  "read_bytes (Win_read_ok chunk) = chunk"
| "read_bytes (Win_read_fail e) = []"

text \<open>
  A device that answers the first reads from a script and has nothing to deliver
  afterwards, and concrete settings, states and ports on which the theorems are run.
\<close>

definition rd_of :: "win_read_outcome list \<Rightarrow> nat \<Rightarrow> win_read_outcome" where
  "rd_of script k = (if k < length script then script ! k else Win_read_ok [])"

definition dcb0 :: DCB where
  "dcb0 = \<lparr>dcb_BaudRate = CBR 1200, dcb_ByteSize = 7, dcb_Parity = 2,
           dcb_StopBits = TWOSTOPBITS\<rparr>"

definition timeouts0 :: COMMTIMEOUTS where
  "timeouts0 = \<lparr>ReadIntervalTimeout = 10, ReadTotalTimeoutMultiplier = 1,
                ReadTotalTimeoutConstant = 100, WriteTotalTimeoutMultiplier = 1,
                WriteTotalTimeoutConstant = 100\<rparr>"

definition termios0 :: termios where
  "termios0 = \<lparr>c_iflag = {IXON, IGNCR}, c_oflag = {OPOST}, c_cflag = {HUPCL, PARODD},
               c_csize = 7, c_lflag = {ICANON, ECHO}, c_ospeed = B 1200, c_ispeed = B 1200,
               c_cc_VMIN = 1, c_cc_VTIME = 0\<rparr>"

definition os_empty :: os_state where
  "os_empty = \<lparr>handles = {}, trace = [], reads_done = 0\<rparr>"

definition win_g0 :: win_globals where
  "win_g0 = \<lparr>hComm = 0, DCBinitial = dcb0, TIMEOUTinitial = timeouts0\<rparr>"

definition posix_g0 :: posix_globals where
  "posix_g0 = \<lparr>hComm_fd = 0, termiosInitial = termios0\<rparr>"

definition world0 :: world where
  "world0 = \<lparr>w_os = os_empty, w_vcp = win_g0, w_emitted = []\<rparr>"

definition win_env_ok :: win_open_env where
  "win_env_ok = \<lparr>CreateFile_result = Some 3, GetCommState_result = Some dcb0,
                 SetCommState_ok = True, GetCommTimeouts_result = Some timeouts0,
                 SetCommTimeouts_ok = True\<rparr>"

definition win_env_timeouts_fail :: win_open_env where
  "win_env_timeouts_fail = win_env_ok\<lparr>SetCommTimeouts_ok := False\<rparr>"

definition posix_env_ok :: posix_open_env where
  "posix_env_ok = \<lparr>open_result = Some 3, tcgetattr_result = Some termios0,
                   tcsetattr_ok = True\<rparr>"

definition posix_env_setattr_fail :: posix_open_env where
  "posix_env_setattr_fail = posix_env_ok\<lparr>tcsetattr_ok := False\<rparr>"

definition port0 :: Port where
  "port0 = \<lparr>PortName = Some ''COM7'', BaudRate = 9600, Parity = 0, StopBits = 1,
            PortOpen = False, DataRecived = False, dataPoller_Enabled = False\<rparr>"

definition port_open :: Port where
  "port_open = port0\<lparr>PortOpen := True, dataPoller_Enabled := True\<rparr>"

definition port_listening :: Port where
  "port_listening = port_open\<lparr>DataRecived := True\<rparr>"

definition posix_rd_of :: "posix_read_outcome list \<Rightarrow> nat \<Rightarrow> posix_read_outcome" where
  "posix_rd_of script k = (if k < length script then script ! k else Posix_read_ok [])"

text \<open>
  The world after a poll has read \<open>chunk\<close>: the read is logged and, when a handler is
  registered, the chunk is appended to the notifications.
\<close>

definition notified :: "Port \<Rightarrow> u8 list \<Rightarrow> world \<Rightarrow> world" where
  "notified this chunk w =
     w\<lparr>w_os := after_ReadFile (w_vcp w) (w_os w),
       w_emitted := (if DataRecived this then w_emitted w @ [chunk] else w_emitted w)\<rparr>"

text \<open>What a finished tick raised or returned, and which notifications exist after it.\<close>

definition outcome_of :: "((exn + unit) \<times> world) option \<Rightarrow> (exn + unit) option" where
  "outcome_of res = map_option fst res"

definition emitted_by :: "((exn + unit) \<times> world) option \<Rightarrow> u8 list list option" where
  "emitted_by res = map_option (\<lambda>r. w_emitted (snd r)) res"

section \<open>Hexadecimal conversion: proofs\<close>

lemma unat_of_char: "unat (of_char c :: u8) = (of_char c :: nat)"
proof -
  have "unat (of_nat (of_char c) :: u8) = of_char c mod 256"
    by (simp add: unat_of_nat)
  then show ?thesis by (simp add: of_nat_of_char)
qed

lemma hex_digit_val_less: "hex_digit_val c = Some v \<Longrightarrow> v < 16"
  by (auto simp: hex_digit_val_def less_eq_char_def split: if_splits)

lemma ascii2hex_body_hex:
  assumes "hex_digit_val c = Some v"
  shows "ascii2hex_body (of_char c) (data, j, mid) =
     (if mid \<noteq> 0 then (data(j := data j OR of_nat v), j + 1, 0)
      else (data(j := push_bit 4 (of_nat v)), j, 1))"
proof -
  let ?n = "of_char c :: nat"
  have w: "(of_char c :: u8) = of_nat ?n" by (simp add: of_nat_of_char)
  have le: "\<And>k. k < 256 \<Longrightarrow> ((of_nat k :: u8) \<le> of_char c) = (k \<le> ?n)"
         "\<And>k. k < 256 \<Longrightarrow> ((of_char c :: u8) \<le> of_nat k) = (?n \<le> k)"
    by (simp_all add: word_le_nat_alt unat_of_char unat_of_nat)
  have c48: "((48::u8) \<le> of_char c) = (48 \<le> ?n)" using le(1)[of 48] by simp
  have c57: "((of_char c :: u8) \<le> 57) = (?n \<le> 57)" using le(2)[of 57] by simp
  have c65: "((65::u8) \<le> of_char c) = (65 \<le> ?n)" using le(1)[of 65] by simp
  have c70: "((of_char c :: u8) \<le> 70) = (?n \<le> 70)" using le(2)[of 70] by simp
  have c97: "((97::u8) \<le> of_char c) = (97 \<le> ?n)" using le(1)[of 97] by simp
  have c102: "((of_char c :: u8) \<le> 102) = (?n \<le> 102)" using le(2)[of 102] by simp
  have sub: "\<And>k. k \<le> ?n \<Longrightarrow> (of_char c :: u8) - of_nat k = of_nat (?n - k)"
    by (simp add: w)
  show ?thesis
    using assms sub[of 48] sub[of 55] sub[of 87]
    by (auto simp: hex_digit_val_def less_eq_char_def c48 c57 c65 c70 c97 c102 split: if_splits)
qed

lemma ascii2hex_body_nonhex:
  assumes "hex_digit_val c = None"
  shows "ascii2hex_body (of_char c) st = st"
proof -
  let ?n = "of_char c :: nat"
  have le: "\<And>k. k < 256 \<Longrightarrow> ((of_nat k :: u8) \<le> of_char c) = (k \<le> ?n)"
         "\<And>k. k < 256 \<Longrightarrow> ((of_char c :: u8) \<le> of_nat k) = (?n \<le> k)"
    by (simp_all add: word_le_nat_alt unat_of_char unat_of_nat)
  have c48: "((48::u8) \<le> of_char c) = (48 \<le> ?n)" using le(1)[of 48] by simp
  have c57: "((of_char c :: u8) \<le> 57) = (?n \<le> 57)" using le(2)[of 57] by simp
  have c65: "((65::u8) \<le> of_char c) = (65 \<le> ?n)" using le(1)[of 65] by simp
  have c70: "((of_char c :: u8) \<le> 70) = (?n \<le> 70)" using le(2)[of 70] by simp
  have c97: "((97::u8) \<le> of_char c) = (97 \<le> ?n)" using le(1)[of 97] by simp
  have c102: "((of_char c :: u8) \<le> 102) = (?n \<le> 102)" using le(2)[of 102] by simp
  show ?thesis
    using assms
    by (cases st) (auto simp: hex_digit_val_def less_eq_char_def c48 c57 c65 c70 c97 c102 split: if_splits)
qed



lemma unat_push_nibble: "v < 16 \<Longrightarrow> unat (push_bit 4 (of_nat v :: u8)) = 16 * v"
  by (simp add: push_bit_eq_mult unat_word_ariths unat_of_nat)

lemma nat_or_nibble: "v < 16 \<Longrightarrow> (16 * a) OR v = 16 * a + (v::nat)"
proof -
  assume v: "v < 16"
  have "push_bit 4 a AND take_bit 4 v = 0"
    by (rule bit_eqI) (auto simp: bit_simps)
  then have "push_bit 4 a + take_bit 4 v = push_bit 4 a OR take_bit 4 v"
    by (rule disjunctive_add_eq_or)
  moreover have "take_bit 4 v = v" using v by (simp add: take_bit_nat_eq_self)
  ultimately show ?thesis by (simp add: push_bit_eq_mult mult.commute)
qed

lemma unat_or_nibble: "unat (x::u8) = 16 * a \<Longrightarrow> v < 16 \<Longrightarrow> unat (x OR of_nat v) = 16 * a + v"
  by (simp add: unsigned_or_eq unat_of_nat nat_or_nibble)

lemma unat_high_nibble: "unat (drop_bit 4 ((x :: u8) AND 0xF0)) = unat x div 16"
proof -
  have "(0xF0::u8) = push_bit 4 (mask 4)" by (simp add: mask_eq_exp_minus_1 push_bit_eq_mult)
  then have "drop_bit 4 (x AND 0xF0) = drop_bit 4 (x AND push_bit 4 (mask 4))" by simp
  also have "\<dots> = drop_bit 4 x"
    by (rule bit_eqI) (auto simp: bit_simps dest: bit_imp_le_length)
  finally show ?thesis by (simp add: drop_bit_eq_div unat_div_distrib)
qed
lemma unat_low_nibble: "unat ((x :: u8) AND 0x0F) = unat x mod 16"
proof -
  have "x AND 0x0F = take_bit 4 x"
    using take_bit_eq_mask[of 4 x] by (simp add: mask_eq_exp_minus_1)
  then show ?thesis by (simp add: take_bit_eq_mod unat_mod_distrib)
qed

lemma pack_nibbles_length: "length (pack_nibbles ns) = (length ns + 1) div 2"
  by (induction ns rule: pack_nibbles.induct) simp_all

lemma pack_nibbles_Nil_iff [simp]: "(pack_nibbles ns = []) = (ns = [])"
  by (induction ns rule: pack_nibbles.induct) simp_all

lemma pack_nibbles_snoc_even:
  "even (length ns) \<Longrightarrow> pack_nibbles (ns @ [v]) = pack_nibbles ns @ [16 * v]"
  by (induction ns rule: pack_nibbles.induct) simp_all

lemma pack_nibbles_snoc_odd:
  "odd (length ns) \<Longrightarrow>
     pack_nibbles (ns @ [v]) = butlast (pack_nibbles ns) @ [16 * last ns + v]"
proof (induction ns rule: pack_nibbles.induct)
  case (3 a b r)
  then show ?case by (cases r) (simp_all add: pack_nibbles_length)
qed simp_all

lemma pack_nibbles_last_odd:
  "odd (length ns) \<Longrightarrow> pack_nibbles ns = butlast (pack_nibbles ns) @ [16 * last ns]"
proof (induction ns rule: pack_nibbles.induct)
  case (3 a b r)
  then show ?case by (cases r) (simp_all add: pack_nibbles_length)
qed simp_all

lemma of_nat_eq_u8: "k < 256 \<Longrightarrow> ((of_nat k :: u8) = j) = (k = unat j)"
  by (auto simp: unat_of_nat)


declare ascii2hex_body.simps [simp del]

lemma map_upd_below:
  assumes "n \<le> unat j"
  shows "map (\<lambda>k. unat ((d(j := x)) (of_nat k))) [0..<n]
       = map (\<lambda>k. unat ((d :: u8 \<Rightarrow> u8) (of_nat k))) [0..<n]"
proof (rule map_cong[OF refl])
  fix k assume "k \<in> set [0..<n]"
  then have k: "k < unat j" using assms by simp
  have "unat j < 2 ^ LENGTH(8)" by (rule unsigned_less)
  then have "unat j < 256" by simp
  with k have "(of_nat k :: u8) \<noteq> j" by (simp add: of_nat_eq_u8)
  then show "unat ((d(j := x)) (of_nat k)) = unat (d (of_nat k))" by simp
qed

lemma packed_step_hex:
  assumes p: "packed ns st" and h: "hex_digit_val c = Some v" and len: "length ns < 255"
  shows "packed (ns @ [v]) (ascii2hex_body (of_char c) st)"
proof -
  obtain d j m where st: "st = (d, j, m)" by (cases st)
  have v: "v < 16" using h by (rule hex_digit_val_less)
  from p st have j: "unat j = length ns div 2"
    and m: "m = (if odd (length ns) then 1 else 0)"
    and mp: "map (\<lambda>k. unat (d (of_nat k))) [0..<(length ns + 1) div 2] = pack_nibbles ns"
    by (simp_all add: packed_def)
  show ?thesis
  proof (cases "even (length ns)")
    case True
    then have e: "(length ns + 1) div 2 = unat j" using j by simp
    have e2: "(length ns + 2) div 2 = Suc (unat j)" using j by simp
    have b: "ascii2hex_body (of_char c) st = (d(j := push_bit 4 (of_nat v)), j, 1)"
      using True m by (simp add: st ascii2hex_body_hex[OF h])
    have "map (\<lambda>k. unat ((d(j := push_bit 4 (of_nat v))) (of_nat k))) [0..<Suc (unat j)]
        = pack_nibbles ns @ [16 * v]"
      using mp e v by (simp add: map_upd_below unat_push_nibble fun_upd_same del: fun_upd_apply)
    then show ?thesis
      using True j e2 by (simp add: b packed_def pack_nibbles_snoc_even del: fun_upd_apply)
  next
    case False
    then have e: "(length ns + 1) div 2 = Suc (unat j)" using j by presburger
    have e2: "(length ns + 2) div 2 = Suc (unat j)" using j by simp
    have j1: "unat (j + 1) = Suc (unat j)"
      using j len by (simp add: unat_word_ariths)
    have b: "ascii2hex_body (of_char c) st = (d(j := d j OR of_nat v), j + 1, 0)"
      using False m by (simp add: st ascii2hex_body_hex[OF h])
    from mp e have mp': "map (\<lambda>k. unat (d (of_nat k))) [0..<unat j] @ [unat (d j)] = pack_nibbles ns"
      by simp
    have "pack_nibbles ns = butlast (pack_nibbles ns) @ [16 * last ns]"
      using False by (rule pack_nibbles_last_odd)
    with mp' have bl: "butlast (pack_nibbles ns) = map (\<lambda>k. unat (d (of_nat k))) [0..<unat j]"
      and dj: "unat (d j) = 16 * last ns"
      by (metis append1_eq_conv)+
    have "map (\<lambda>k. unat ((d(j := d j OR of_nat v)) (of_nat k))) [0..<Suc (unat j)]
        = butlast (pack_nibbles ns) @ [16 * last ns + v]"
      using bl v by (simp add: map_upd_below unat_or_nibble[OF dj] fun_upd_same del: fun_upd_apply)
    then show ?thesis
      using False j e2 j1 by (simp add: b packed_def pack_nibbles_snoc_odd del: fun_upd_apply)
  qed
qed

lemma packed_step_nonhex:
  "packed ns st \<Longrightarrow> hex_digit_val c = None \<Longrightarrow> packed ns (ascii2hex_body (of_char c) st)"
  by (simp add: ascii2hex_body_nonhex)

lemma map_filter_snoc:
  "List.map_filter f (xs @ [x]) = List.map_filter f xs @ (case f x of None \<Rightarrow> [] | Some y \<Rightarrow> [y])"
  by (simp add: List.map_filter_def split: option.split)

lemma length_map_filter_le: "length (List.map_filter f xs) \<le> length xs"
  by (simp add: List.map_filter_def)

lemma ascii2hex_loop_from:
  assumes "length str \<le> 255" and "CHR 0x00 \<notin> set str"
  shows "k \<le> length str \<Longrightarrow> packed (List.map_filter hex_digit_val (take k str)) st \<Longrightarrow>
     \<exists>st'. ascii2hex_loop str (of_nat k) st
           = (case st' of (d, j, m) \<Rightarrow> Some (d, if m \<noteq> 0 then j + 1 else j)) \<and>
        packed (List.map_filter hex_digit_val str) st'"
proof (induction "length str - k" arbitrary: k st)
  case 0
  then have k: "k = length str" by simp
  have "str_at str (of_nat k) = 0"
    using assms(1) by (simp add: k str_at_def unat_of_nat)
  then show ?case using "0.prems"(2)
    by (subst ascii2hex_loop.simps) (intro exI[of _ st], simp add: k)
next
  case (Suc n)
  then have k: "k < length str" by simp
  then have k256: "k < 256" using assms(1) by simp
  let ?c = "str ! k"
  have c0: "?c \<noteq> CHR 0x00" using k assms(2) by (metis nth_mem)
  have at: "str_at str (of_nat k) = of_char ?c"
    using k k256 by (simp add: str_at_def unat_of_nat)
  have nz: "(of_char ?c :: u8) \<noteq> 0"
  proof
    assume "(of_char ?c :: u8) = 0"
    then have "unat (of_char ?c :: u8) = 0" by simp
    then have "(of_char ?c :: nat) = of_char CHR 0x00" by (simp add: unat_of_char)
    then show False using c0 by (simp only: of_char_eq_iff)
  qed
  have tk: "take (Suc k) str = take k str @ [?c]" using k by (simp add: take_Suc_conv_app_nth)
  have lenp: "length (List.map_filter hex_digit_val (take k str)) < 255"
    using length_map_filter_le[of hex_digit_val "take k str"] k assms(1) by simp
  have p': "packed (List.map_filter hex_digit_val (take (Suc k) str)) (ascii2hex_body (of_char ?c) st)"
    using Suc.prems(2) lenp
    by (cases "hex_digit_val ?c") (simp_all add: tk map_filter_snoc packed_step_nonhex packed_step_hex)
  have "n = length str - Suc k" using Suc.hyps(2) by simp
  from Suc.hyps(1)[OF this _ p'] k
  have "\<exists>st'. ascii2hex_loop str (of_nat (Suc k)) (ascii2hex_body (of_char ?c) st)
           = (case st' of (d, j, m) \<Rightarrow> Some (d, if m \<noteq> 0 then j + 1 else j)) \<and>
        packed (List.map_filter hex_digit_val str) st'" by simp
  moreover have "ascii2hex_loop str (of_nat k) st
       = ascii2hex_loop str (of_nat (Suc k)) (ascii2hex_body (of_char ?c) st)"
    by (subst ascii2hex_loop.simps) (simp add: at nz add.commute)
  ultimately show ?case by simp
qed







lemma ascii2hex_returns:
  assumes "length str \<le> 255" and "CHR 0x00 \<notin> set str"
  shows "\<exists>d n. ascii2hex str data = Some (d, n) \<and>
           map unat (bytes_of d n) = ascii_to_hex str \<and>
           unat n = length (ascii_to_hex str)"
proof -
  let ?ns = "List.map_filter hex_digit_val str"
  have "packed (List.map_filter hex_digit_val (take 0 str)) (data, 0, 0)"
    by (simp add: packed_def List.map_filter_def)
  from ascii2hex_loop_from[OF assms _ this, of ] obtain st' where
    r: "ascii2hex_loop str 0 (data, 0, 0)
           = (case st' of (d, j, m) \<Rightarrow> Some (d, if m \<noteq> 0 then j + 1 else j))"
    and p: "packed ?ns st'" by auto
  obtain d j m where st': "st' = (d, j, m)" by (cases st')
  from p st' have j: "unat j = length ?ns div 2"
    and m: "m = (if odd (length ?ns) then 1 else 0)"
    and mp: "map (\<lambda>k. unat (d (of_nat k))) [0..<(length ?ns + 1) div 2] = pack_nibbles ?ns"
    by (simp_all add: packed_def)
  have "length ?ns \<le> 255" using length_map_filter_le[of hex_digit_val str] assms(1) by simp
  then have n: "unat (if m \<noteq> 0 then j + 1 else j) = (length ?ns + 1) div 2"
    using j m by (auto simp: unat_word_ariths)
  show ?thesis
    using r st' n mp
    by (simp add: ascii2hex_def bytes_of_def ascii_to_hex_def pack_nibbles_length comp_def)
qed


lemma hex_nibble_char:
  assumes "unat (x::u8) = n" and "n < 16"
  shows "(if 10 \<le> x then x + 55 else x + 48) = of_char (hex_char n)"
proof -
  have x: "x = of_nat n" using assms(1) by (metis of_nat_unat ucast_id)
  have le: "(10 \<le> x) = (10 \<le> n)"
    using assms by (simp add: word_le_nat_alt)
  have c: "(of_char (hex_char n) :: u8) = of_nat (of_char (hex_char n) :: nat)"
    by (simp add: of_nat_of_char)
  have "(of_char (hex_char n) :: nat) = (if 10 \<le> n then n + 55 else n + 48)"
    using assms(2) by (simp add: hex_char_def)
  then have "(of_char (hex_char n) :: u8) = (if 10 \<le> n then of_nat n + 55 else of_nat n + 48)"
    by (simp add: c)
  then show ?thesis by (simp only: le) (simp add: x)
qed

lemma hex_nibble_char_nonzero:
  "n < 16 \<Longrightarrow> (of_char (hex_char n) :: u8) \<noteq> 0"
proof -
  assume n: "n < 16"
  have "(of_char (hex_char n) :: nat) = (if 10 \<le> n then n + 55 else n + 48)"
    using n by (simp add: hex_char_def)
  then have "unat (of_char (hex_char n) :: u8) \<noteq> 0" by (simp add: unat_of_char)
  then show ?thesis by auto
qed


declare hex2ascii_loop.simps [simp del]

lemma of_nat_unat_u8: "of_nat (unat (w::u8)) = w"
  by simp

lemma hex2ascii_loop_spec:
  "unat len = n \<Longrightarrow> unat j + 2 * n \<le> 255 \<Longrightarrow>
   (case hex2ascii_loop data str len i j of (str', j') \<Rightarrow>
      unat j' = unat j + 2 * n \<and>
      (\<forall>k < unat j. str' (of_nat k) = str (of_nat k)) \<and>
      str' j' = 0 \<and>
      map (\<lambda>k. str' (of_nat k)) [unat j ..< unat j'] =
         map of_char (hex_to_ascii (map (\<lambda>k. unat (data (i + of_nat k))) [0..<n])))"
proof (induction n arbitrary: str len i j)
  case 0
  then have "len = 0" by (simp add: unat_eq_0)
  moreover have "\<And>k. k < unat j \<Longrightarrow> (of_nat k :: u8) \<noteq> j"
  proof -
    fix k assume k: "k < unat j"
    have "unat j < 2 ^ LENGTH(8)" by (rule unsigned_less)
    then have "k < 256" using k by simp
    then show "(of_nat k :: u8) \<noteq> j" using k by (simp add: of_nat_eq_u8)
  qed
  ultimately show ?case using "0.prems"
    by (subst hex2ascii_loop.simps) (simp add: hex_to_ascii_def)
next
  case (Suc n)
  then have len0: "len \<noteq> 0" by auto
  have len1: "unat (len - 1) = n" using Suc.prems(1) len0 by (simp add: unat_minus_one)
  define x where "x = drop_bit 4 (data i AND 0xF0)"
  define y where "y = data i AND 0x0F"
  define cx :: u8 where "cx = of_char (hex_char (unat (data i) div 16))"
  define cy :: u8 where "cy = of_char (hex_char (unat (data i) mod 16))"
  have ux: "unat x = unat (data i) div 16" unfolding x_def by (rule unat_high_nibble)
  have uy: "unat y = unat (data i) mod 16" unfolding y_def by (rule unat_low_nibble)
  have "unat (data i) < 2 ^ LENGTH(8)" by (rule unsigned_less)
  then have d256: "unat (data i) < 256" by simp
  have hx: "(if 10 \<le> x then x + 55 else x + 48) = cx"
    unfolding cx_def using d256 by (intro hex_nibble_char[OF ux]) simp
  have hy: "(if 10 \<le> y then y + 55 else y + 48) = cy"
    unfolding cy_def by (intro hex_nibble_char[OF uy]) simp
  define str2 where "str2 = (str(j := cx))(j + 1 := cy)"
  have step: "hex2ascii_loop data str len i j = hex2ascii_loop data str2 (len - 1) (i + 1) (j + 1 + 1)"
    by (subst hex2ascii_loop.simps)
       (simp only: Let_def len0 flip: x_def y_def, simp only: hx hy str2_def, simp)
  have j1: "unat (j + 1) = unat j + 1" using Suc.prems(2) by (simp add: unat_word_ariths)
  have j2: "unat (j + 1 + 1) = unat j + 2" using Suc.prems(2) j1 by (simp add: unat_word_ariths)
  have j2s: "unat (2 + j) = Suc (Suc (unat j))" using j2 by (simp add: add.commute)
  obtain str' j' where r: "hex2ascii_loop data str2 (len - 1) (i + 1) (j + 1 + 1) = (str', j')"
    by (cases "hex2ascii_loop data str2 (len - 1) (i + 1) (j + 1 + 1)")
  have "unat (j + 1 + 1) + 2 * n \<le> 255" using Suc.prems(2) j2 by simp
  note ih0 = Suc.IH[of "len - 1" "j + 1 + 1" str2 "i + 1", OF len1 this]
  have ih: "unat j' = unat (j + 1 + 1) + 2 * n \<and>
      (\<forall>k < unat (j + 1 + 1). str' (of_nat k) = str2 (of_nat k)) \<and>
      str' j' = 0 \<and>
      map (\<lambda>k. str' (of_nat k)) [unat (j + 1 + 1) ..< unat j'] =
         map of_char (hex_to_ascii (map (\<lambda>k. unat (data (i + 1 + of_nat k))) [0..<n]))"
    using ih0 unfolding r prod.case by blast
  have a: "unat j' = unat j + 2 + 2 * n"
    using ih unfolding j2 by blast
  have b: "\<forall>k < unat j + 2. str' (of_nat k) = str2 (of_nat k)"
    using ih unfolding j2 by blast
  have c: "str' j' = 0" using ih by blast
  have d: "map (\<lambda>k. str' (of_nat k)) [unat j + 2 ..< unat j'] =
         map of_char (hex_to_ascii (map (\<lambda>k. unat (data (i + 1 + of_nat k))) [0..<n]))"
    using ih unfolding j2 by blast
  have sj: "str' j = cx"
  proof -
    have "unat j < unat j + 2" by simp
    from b[rule_format, OF this]
    have "str' j = str2 j" by simp
    moreover have "j + 1 \<noteq> j" by simp
    ultimately show ?thesis by (simp add: str2_def)
  qed
  have sj1: "str' (j + 1) = cy"
  proof -
    have "unat (j + 1) < unat j + 2" using j1 by simp
    from b[rule_format, OF this]
    have "str' (j + 1) = str2 (j + 1)" by simp
    then show ?thesis by (simp add: str2_def)
  qed
  have below: "\<forall>k < unat j. str' (of_nat k) = str (of_nat k)"
  proof (intro allI impI)
    fix k assume k: "k < unat j"
    then have "str' (of_nat k) = str2 (of_nat k)" using b by simp
    moreover have "k < 256" using k Suc.prems(2) by simp
    then have "(of_nat k :: u8) \<noteq> j" "(of_nat k :: u8) \<noteq> j + 1"
      using k j1 by (simp_all add: of_nat_eq_u8)
    ultimately show "str' (of_nat k) = str (of_nat k)" by (simp add: str2_def)
  qed
  have upt: "[unat j ..< unat j'] = unat j # (unat j + 1) # [unat j + 2 ..< unat j']"
    using a by (simp add: upt_rec)
  have shift: "map (\<lambda>k. unat (data (i + of_nat k))) [0..<Suc n]
      = unat (data i) # map (\<lambda>k. unat (data (i + 1 + of_nat k))) [0..<n]"
    by (simp add: upt_conv_Cons map_Suc_upt[symmetric] add.assoc del: upt_Suc)
  have "map (\<lambda>k. str' (of_nat k)) [unat j ..< unat j'] =
         map of_char (hex_to_ascii (map (\<lambda>k. unat (data (i + of_nat k))) [0..<Suc n]))"
    unfolding shift upt using d sj sj1 j1
    by (simp add: hex_to_ascii_def cx_def cy_def add.commute)
  moreover have "unat j' = unat j + 2 * Suc n" using a by simp
  ultimately show ?case unfolding step r prod.case using c below by blast
qed


lemma c_string_prefix:
  assumes m: "unat j' = m" and z: "buf j' = 0"
    and nz: "\<forall>b \<in> set (map (\<lambda>k. buf (of_nat k)) [0..<m]). b \<noteq> 0"
  shows "c_string buf = map (\<lambda>k. buf (of_nat k)) [0..<m]"
proof -
  have "unat j' < 2 ^ LENGTH(8)" by (rule unsigned_less)
  then have m256: "m < 256" using m by simp
  have "[0..<m + (256 - m)] = [0..<m] @ [m..<m + (256 - m)]"
    by (rule upt_add_eq_append) simp
  then have "[0..<256] = [0..<m] @ m # [Suc m..<256]"
    using m256 by (simp add: upt_conv_Cons del: upt_Suc)
  then have sp: "map (\<lambda>k. buf (of_nat k)) [0..<256]
      = map (\<lambda>k. buf (of_nat k)) [0..<m] @ buf (of_nat m) # map (\<lambda>k. buf (of_nat k)) [Suc m..<256]"
    by (simp only: map_append list.map)
  have bm: "buf (of_nat m) = 0" using m z by (metis of_nat_unat_u8)
  have "takeWhile (\<lambda>b. b \<noteq> 0) (map (\<lambda>k. buf (of_nat k)) [0..<m]
           @ buf (of_nat m) # map (\<lambda>k. buf (of_nat k)) [Suc m..<256])
        = map (\<lambda>k. buf (of_nat k)) [0..<m]
           @ takeWhile (\<lambda>b. b \<noteq> 0) (buf (of_nat m) # map (\<lambda>k. buf (of_nat k)) [Suc m..<256])"
    using nz by (intro takeWhile_append2) blast
  then show ?thesis unfolding c_string_def sp by (simp add: bm)
qed

lemma hex_to_ascii_pack:
  "\<forall>v \<in> set ns. v < 16 \<Longrightarrow>
   hex_to_ascii (pack_nibbles ns) = map hex_char (ns @ (if odd (length ns) then [0] else []))"
  by (induction ns rule: pack_nibbles.induct) (simp_all add: hex_to_ascii_def)

lemma hex_char_upper: "hex_digit_val c = Some v \<Longrightarrow> hex_char v = hex_upper c"
proof -
  assume h: "hex_digit_val c = Some v"
  have c: "char_of (of_char c :: nat) = c" by simp
  consider (digit) "48 \<le> (of_char c :: nat)" "(of_char c :: nat) \<le> 57" "v = of_char c - 48"
    | (upper) "65 \<le> (of_char c :: nat)" "(of_char c :: nat) \<le> 70" "v = of_char c - 65 + 10"
    | (lower) "97 \<le> (of_char c :: nat)" "(of_char c :: nat) \<le> 102" "v = of_char c - 97 + 10"
    using h by (auto simp: hex_digit_val_def less_eq_char_def split: if_splits)
  then show ?thesis
  proof cases
    case digit
    then have "48 + v = (of_char c :: nat)" and "v < 10" by simp_all
    then show ?thesis using digit c
      by (simp add: hex_char_def hex_upper_def less_eq_char_def)
  next
    case upper
    then have "65 + (v - 10) = (of_char c :: nat)" and "\<not> v < 10" by simp_all
    then show ?thesis using upper c
      by (simp add: hex_char_def hex_upper_def less_eq_char_def)
  next
    case lower
    then have "65 + (v - 10) = (of_char c :: nat) - 32" and "\<not> v < 10" by simp_all
    then show ?thesis using lower
      by (simp add: hex_char_def hex_upper_def less_eq_char_def)
  qed
qed

lemma roundtrip_returns:
  assumes hex: "\<forall>c \<in> set s. hex_digit_val c \<noteq> None" and len: "length s \<le> 254"
  shows "\<exists>d n. ascii2hex s data = Some (d, n) \<and>
           c_string (fst (hex2ascii d str n)) =
             map of_char (map hex_upper s @ (if odd (length s) then ''0'' else []))"
proof -
  have "hex_digit_val CHR 0x00 = None" by (simp add: hex_digit_val_def less_eq_char_def)
  then have nul: "CHR 0x00 \<notin> set s" using hex by auto
  let ?ns = "List.map_filter hex_digit_val s"
  have ns: "?ns = map (\<lambda>c. the (hex_digit_val c)) s"
    using hex by (induction s) (auto simp: List.map_filter_def)
  have lns: "length ?ns = length s" by (simp add: ns)
  have ns16: "\<forall>v \<in> set ?ns. v < 16"
    using hex by (auto simp: ns intro: hex_digit_val_less)
  from ascii2hex_returns[of s data] len nul obtain d n where
    r: "ascii2hex s data = Some (d, n)"
    and bytes: "map unat (bytes_of d n) = ascii_to_hex s"
    and n: "unat n = length (ascii_to_hex s)" by auto
  have n': "unat n = (length s + 1) div 2"
    by (simp add: n ascii_to_hex_def pack_nibbles_length lns)
  then have bound: "unat (0::u8) + 2 * unat n \<le> 255" using len by simp
  obtain str' j' where h: "hex2ascii_loop d str n 0 0 = (str', j')"
    by (cases "hex2ascii_loop d str n 0 0")
  note sp = hex2ascii_loop_spec[where data=d and str=str and i=0 and j=0 and len=n, OF refl bound]
  have z: "str' j' = 0"
    and out0: "map (\<lambda>k. str' (of_nat k)) [unat (0::u8) ..< unat j'] =
         map of_char (hex_to_ascii (map (\<lambda>k. unat (d (0 + of_nat k))) [0..<unat n]))"
    using sp unfolding h prod.case by blast+
  have out: "map (\<lambda>k. str' (of_nat k)) [0 ..< unat j'] =
         map of_char (hex_to_ascii (map (\<lambda>k. unat (d (of_nat k))) [0..<unat n]))"
    using out0 by simp
  have "map (\<lambda>k. unat (d (of_nat k))) [0..<unat n] = pack_nibbles ?ns"
    using bytes by (simp add: bytes_of_def ascii_to_hex_def comp_def)
  then have out2: "map (\<lambda>k. str' (of_nat k)) [0 ..< unat j'] =
         map of_char (map hex_char (?ns @ (if odd (length ?ns) then [0] else [])))"
    using out by (simp only: hex_to_ascii_pack[OF ns16])
  have up: "map hex_char ?ns = map hex_upper s"
    using hex by (auto simp: ns hex_char_upper)
  have h0: "hex_char 0 = CHR ''0''" by code_simp
  have out3: "map (\<lambda>k. str' (of_nat k)) [0 ..< unat j'] =
         map of_char (map hex_upper s @ (if odd (length s) then ''0'' else []))"
    using out2 up h0 by (simp add: lns)
  have "\<forall>b \<in> set (map (\<lambda>k. str' (of_nat k)) [0..<unat j']). b \<noteq> (0::u8)"
  proof -
    have "\<forall>v \<in> set (?ns @ (if odd (length ?ns) then [0] else [])). v < 16"
      using ns16 by auto
    then have "\<forall>b \<in> set (map of_char (map hex_char (?ns @ (if odd (length ?ns) then [0] else [])))).
        b \<noteq> (0::u8)"
      by (auto simp: hex_nibble_char_nonzero)
    then show ?thesis by (simp only: out2)
  qed
  from c_string_prefix[OF refl z this]
  have "c_string str' = map (\<lambda>k. str' (of_nat k)) [0..<unat j']" .
  then show ?thesis using r h out3 by (simp add: hex2ascii_def)
qed

lemma hex_upper_lower: "map hex_upper ''abcdef'' = ''ABCDEF''"
  by code_simp

lemma hex_upper_ex: "map hex_upper ''A4a38'' = ''A4A38''"
  by code_simp

lemma roundtrip_A4a38:
  "\<exists>d n. ascii2hex ''A4a38'' data = Some (d, n) \<and>
      c_string (fst (hex2ascii d str n)) = map of_char ''A4A380''"
  using roundtrip_returns[of "''A4a38''" data str] hex_upper_ex
  by (simp add: hex_digit_val_def less_eq_char_def)



section \<open>Claims about the hexadecimal conversion\<close>




text \<open>
  C5 (as amended). For every input string of at most 254 characters, all of them among
  \<open>0-9\<close>, \<open>A-F\<close>, \<open>a-f\<close>, the round trip \<^verbatim>\<open>hex2ascii(ascii2hex(s))\<close> yields the
  upper-case form of the string when its length is even, and the upper-case form
  followed by the character \<open>0\<close> when its length is odd.
\<close>

theorem hex_roundtrip_uppercase:
  assumes "\<forall>c \<in> set s. hex_digit_val c \<noteq> None" and "length s \<le> 254"
  shows "hex_roundtrip s hex buf =
           Some (map of_char (map hex_upper s @ (if odd (length s) then ''0'' else [])))"
proof -
  from roundtrip_returns[OF assms, of hex buf] obtain d n where
    "ascii2hex s hex = Some (d, n)"
    and "c_string (fst (hex2ascii d buf n)) =
           map of_char (map hex_upper s @ (if odd (length s) then ''0'' else []))"
    by blast
  then show ?thesis by (simp add: hex_roundtrip_def)
qed

theorem hex_roundtrip_uppercase_witness:
  "length ''c0fFeE'' \<le> 254 \<and>
   hex_roundtrip ''c0fFeE'' zero_buf zero_buf = Some (map of_char ''C0FFEE'')"
proof -
  have h: "\<forall>c \<in> set ''c0fFeE''. hex_digit_val c \<noteq> None"
    by (simp add: hex_digit_val_def less_eq_char_def)
  have l: "length ''c0fFeE'' \<le> 254" by simp
  have u: "map hex_upper ''c0fFeE'' = ''C0FFEE''" by code_simp
  show ?thesis
    using hex_roundtrip_uppercase[OF h l, of zero_buf zero_buf] u by simp
qed

text \<open>
  C5 as stated fails on odd lengths: \<^verbatim>\<open>"A4a38"\<close> comes back as \<^verbatim>\<open>"A4A380"\<close>, which is
  not its upper-case form \<^verbatim>\<open>"A4A38"\<close>.
\<close>

theorem hex_roundtrip_odd_counterexample:
  "hex_roundtrip ''A4a38'' zero_buf zero_buf \<noteq> Some (map of_char (map hex_upper ''A4a38''))"
proof -
  have "\<exists>d n. ascii2hex ''A4a38'' zero_buf = Some (d, n) \<and>
      c_string (fst (hex2ascii d zero_buf n)) = map of_char ''A4A380''"
    by (rule roundtrip_A4a38)
  then have "hex_roundtrip ''A4a38'' zero_buf zero_buf = Some (map of_char ''A4A380'')"
    by (auto simp: hex_roundtrip_def)
  then show ?thesis by (simp add: hex_upper_ex)
qed

section \<open>Claims about the C library\<close>

lemma sint_neg_dword:
  assumes "uint (e :: dword) < 2 ^ 31"
  shows "sint (0 - e) = - uint e"
proof -
  have "0 - e = (word_of_int (- uint e) :: dword)"
    by (simp add: word_of_int_uint)
  then have "sint (0 - e) = signed_take_bit (LENGTH(32) - 1) (- uint e)"
    by (simp only: sint_sbintrunc')
  also have "\<dots> = - uint e"
  proof (rule signed_take_bit_int_eq_self)
    have "0 \<le> uint e" by simp
    then have "- uint e \<le> 0" by simp
    then show "- uint e < 2 ^ (LENGTH(32) - 1)" by (rule order.strict_trans1) simp
    show "- (2 ^ (LENGTH(32) - 1)) \<le> - uint e" using assms by simp
  qed
  finally show ?thesis .
qed

lemma uint_pos_dword: "e \<noteq> 0 \<Longrightarrow> 0 < uint (e :: dword)"
  by (simp add: word_greater_zero_iff[symmetric] word_less_def)

lemma fst_poll_posix:
  "fst (poll_COM_port_posix EWOULDBLOCK rd g buffer length' os) =
     (case rd (reads_done os) of
        Posix_read_ok chunk \<Rightarrow> int (min (unat length') (length chunk))
      | Posix_read_fail errno \<Rightarrow> (if errno = EWOULDBLOCK then 0 else - errno))"
  by (simp add: poll_COM_port_posix_def posix_read_def Let_def min.commute split: posix_read_outcome.split)

lemma fst_poll_win:
  "fst (poll_COM_port_win rd g buffer length' os) =
     (case rd (reads_done os) of
        Win_read_ok chunk \<Rightarrow> int (min (unat length') (length chunk))
      | Win_read_fail e \<Rightarrow> sint (0 - e))"
  by (simp add: poll_COM_port_win_def ReadFile_def Let_def min.commute split: win_read_outcome.split)

text \<open>
  C1. In \<^verbatim>\<open>poll_COM_port\<close> the would-block condition (on POSIX a failed \<^verbatim>\<open>read\<close> with
  \<^verbatim>\<open>errno == EWOULDBLOCK\<close>; on Windows, with the time-outs set by \<^verbatim>\<open>init_COM_port\<close>, a
  successful \<^verbatim>\<open>ReadFile\<close> of no bytes) is returned as the length 0; a successful read
  returns its length, which is not negative; every other failure returns minus the
  operating system's error code, a negative number, for the positive codes the
  operating system reports (\<^verbatim>\<open>errno\<close> values; \<^verbatim>\<open>GetLastError\<close> values below \<open>2^31\<close>);
  and a negative result only ever comes from such a failure.
\<close>

theorem poll_COM_port_would_block_is_zero:
  "(rd (reads_done os) = Posix_read_fail EWOULDBLOCK \<longrightarrow>
      fst (poll_COM_port_posix EWOULDBLOCK rd g buffer length' os) = 0) \<and>
   (rd (reads_done os) = Posix_read_ok chunk \<longrightarrow>
      fst (poll_COM_port_posix EWOULDBLOCK rd g buffer length' os)
        = int (min (unat length') (length chunk))) \<and>
   (rd (reads_done os) = Posix_read_fail errno \<and> errno \<noteq> EWOULDBLOCK \<and> 0 < errno \<longrightarrow>
      fst (poll_COM_port_posix EWOULDBLOCK rd g buffer length' os) = - errno \<and>
      fst (poll_COM_port_posix EWOULDBLOCK rd g buffer length' os) < 0) \<and>
   (fst (poll_COM_port_posix EWOULDBLOCK rd g buffer length' os) < 0 \<longrightarrow>
      (\<exists>e. rd (reads_done os) = Posix_read_fail e \<and> e \<noteq> EWOULDBLOCK)) \<and>
   (wrd (reads_done os) = Win_read_ok chunk \<longrightarrow>
      fst (poll_COM_port_win wrd wg buffer length' os)
        = int (min (unat length') (length chunk))) \<and>
   (wrd (reads_done os) = Win_read_fail e \<and> 0 < e \<and> uint e < 2 ^ 31 \<longrightarrow>
      fst (poll_COM_port_win wrd wg buffer length' os) = - uint e \<and>
      fst (poll_COM_port_win wrd wg buffer length' os) < 0) \<and>
   (fst (poll_COM_port_win wrd wg buffer length' os) < 0 \<longrightarrow>
      (\<exists>e. wrd (reads_done os) = Win_read_fail e))"
  unfolding fst_poll_posix fst_poll_win
  using sint_neg_dword[of e] uint_pos_dword[of e]
  by (auto simp: word_greater_zero_iff split: posix_read_outcome.splits win_read_outcome.splits)

theorem poll_COM_port_would_block_is_zero_witness:
  "fst (poll_COM_port_posix 11 (posix_rd_of [Posix_read_fail 11]) posix_g0 [] 128 os_empty) = 0 \<and>
   fst (poll_COM_port_posix 11 (posix_rd_of [Posix_read_fail 5]) posix_g0 [] 128 os_empty) = - 5 \<and>
   fst (poll_COM_port_win (rd_of [Win_read_fail 5]) win_g0 [] 128 os_empty) = - 5"
  using poll_COM_port_would_block_is_zero
          [where rd = "posix_rd_of [Posix_read_fail 11]" and os = os_empty and EWOULDBLOCK = 11
             and g = posix_g0 and buffer = "[]" and length' = 128]
        poll_COM_port_would_block_is_zero
          [where rd = "posix_rd_of [Posix_read_fail 5]" and os = os_empty and EWOULDBLOCK = 11
             and errno = 5 and g = posix_g0 and buffer = "[]" and length' = 128
             and wrd = "rd_of [Win_read_fail 5]" and e = 5 and wg = win_g0]
  by (simp add: posix_rd_of_def rd_of_def os_empty_def)

lemma init_win_cases:
  "init_COM_port_win env portName baudRate parityBit stopBits mode g os0 = (r, g', os') \<Longrightarrow>
   (r = 0 \<and> (\<exists>n. CreateFile_result env = Some n \<and> hComm g' = int n \<and>
               handles os' = insert (int n) (handles os0))) \<or>
   (r = - 1 \<and> CreateFile_result env = None \<and> handles os' = handles os0) \<or>
   (r = - 1 \<and> (\<exists>n. CreateFile_result env = Some n \<and>
               handles os' = handles os0 - {int n} \<and>
               last (trace os') = Call_CloseHandle (int n)))"
  by (auto simp: init_COM_port_win_def Let_def os_log_def os_acquire_def os_release_def
           split: option.splits if_splits)

lemma init_posix_cases:
  "init_COM_port_posix env portName baudRate parityBit stopBits mode g os0 = (r, g', os') \<Longrightarrow>
   (r = 0 \<and> (\<exists>n. open_result env = Some n \<and> hComm_fd g' = int n \<and>
               handles os' = insert (int n) (handles os0))) \<or>
   (r = - 1 \<and> open_result env = None \<and> handles os' = handles os0) \<or>
   (r = - 1 \<and> (\<exists>n. open_result env = Some n \<and>
               handles os' = handles os0 - {int n} \<and>
               last (trace os') = Call_close (int n)))"
  by (auto simp: init_COM_port_posix_def Let_def os_log_def os_acquire_def os_release_def
           split: option.splits if_splits)

lemma init_win_step_fails:
  assumes "CreateFile_result env = Some n"
    and "GetCommState_result env = None \<or> \<not> SetCommState_ok env \<or>
         GetCommTimeouts_result env = None \<or> \<not> SetCommTimeouts_ok env"
  shows "\<exists>g' os'. init_COM_port_win env portName baudRate parityBit stopBits mode g os0
             = (- 1, g', os') \<and>
           int n \<notin> handles os' \<and> handles os' = handles os0 - {int n} \<and>
           last (trace os') = Call_CloseHandle (int n)"
  using assms
  by (auto simp: init_COM_port_win_def Let_def os_log_def os_acquire_def os_release_def
           split: option.splits)

lemma init_posix_step_fails:
  assumes "open_result env = Some n"
    and "tcgetattr_result env = None \<or> \<not> tcsetattr_ok env"
  shows "\<exists>g' os'. init_COM_port_posix env portName baudRate parityBit stopBits mode g os0
             = (- 1, g', os') \<and>
           int n \<notin> handles os' \<and> handles os' = handles os0 - {int n} \<and>
           last (trace os') = Call_close (int n)"
  using assms
  by (auto simp: init_COM_port_posix_def Let_def os_log_def os_acquire_def os_release_def
           split: option.splits)

lemma init_win_all_succeed:
  assumes "CreateFile_result env = Some n" and "GetCommState_result env = Some dcb"
    and "SetCommState_ok env" and "GetCommTimeouts_result env = Some t"
    and "SetCommTimeouts_ok env"
  shows "\<exists>g' os'. init_COM_port_win env portName baudRate parityBit stopBits mode g os0
             = (0, g', os') \<and> hComm g' = int n \<and>
           handles os' = insert (int n) (handles os0)"
  using assms
  by (simp add: init_COM_port_win_def Let_def os_log_def os_acquire_def)

lemma init_posix_all_succeed:
  assumes "open_result env = Some n" and "tcgetattr_result env = Some t"
    and "tcsetattr_ok env"
  shows "\<exists>g' os'. init_COM_port_posix env portName baudRate parityBit stopBits mode g os0
             = (0, g', os') \<and> hComm_fd g' = int n \<and>
           handles os' = insert (int n) (handles os0)"
  using assms
  by (simp add: init_COM_port_posix_def Let_def os_log_def os_acquire_def)

text \<open>
  C6. Whenever the operating system has handed out a handle to \<^verbatim>\<open>init_COM_port\<close> and a
  later step fails (capturing the settings, applying them, capturing the time-outs or
  applying them on Windows; \<^verbatim>\<open>tcgetattr\<close> or \<^verbatim>\<open>tcsetattr\<close> on POSIX), the function
  returns \<open>-1\<close>, the handle is no longer held when it returns, no handle is held that
  was not held before the call, and releasing the handle was the last call made to the
  operating system before the error is reported. Conversely every execution that
  returns a non-zero result after a handle was handed out has released it in the same
  way, and when every step succeeds the function returns 0 and the handle is held.
  This holds for the Windows and the POSIX build.
\<close>

theorem init_COM_port_failure_releases_handle:
  "(CreateFile_result wenv = Some n \<and>
      (GetCommState_result wenv = None \<or> \<not> SetCommState_ok wenv \<or>
       GetCommTimeouts_result wenv = None \<or> \<not> SetCommTimeouts_ok wenv) \<longrightarrow>
      (\<exists>g' os'. init_COM_port_win wenv portName baudRate parityBit stopBits mode wg os_before
                  = (- 1, g', os') \<and>
         int n \<notin> handles os' \<and> handles os' \<subseteq> handles os_before \<and>
         last (trace os') = Call_CloseHandle (int n))) \<and>
   (open_result penv = Some n \<and> (tcgetattr_result penv = None \<or> \<not> tcsetattr_ok penv) \<longrightarrow>
      (\<exists>g' os'. init_COM_port_posix penv portName baudRate parityBit stopBits mode pg os_before
                  = (- 1, g', os') \<and>
         int n \<notin> handles os' \<and> handles os' \<subseteq> handles os_before \<and>
         last (trace os') = Call_close (int n))) \<and>
   (init_COM_port_win wenv portName baudRate parityBit stopBits mode wg os_before = (r, wg', os') \<and>
      r \<noteq> 0 \<and> CreateFile_result wenv = Some n \<longrightarrow>
        int n \<notin> handles os' \<and> handles os' \<subseteq> handles os_before \<and>
        last (trace os') = Call_CloseHandle (int n)) \<and>
   (init_COM_port_posix penv portName baudRate parityBit stopBits mode pg os_before = (r, pg', os') \<and>
      r \<noteq> 0 \<and> open_result penv = Some n \<longrightarrow>
        int n \<notin> handles os' \<and> handles os' \<subseteq> handles os_before \<and>
        last (trace os') = Call_close (int n)) \<and>
   (CreateFile_result wenv = Some n \<and> GetCommState_result wenv = Some dcb \<and>
      SetCommState_ok wenv \<and> GetCommTimeouts_result wenv = Some t \<and>
      SetCommTimeouts_ok wenv \<longrightarrow>
      (\<exists>g' os'. init_COM_port_win wenv portName baudRate parityBit stopBits mode wg os_before
                  = (0, g', os') \<and> handles os' = insert (int n) (handles os_before))) \<and>
   (open_result penv = Some n \<and> tcgetattr_result penv = Some tio \<and> tcsetattr_ok penv \<longrightarrow>
      (\<exists>g' os'. init_COM_port_posix penv portName baudRate parityBit stopBits mode pg os_before
                  = (0, g', os') \<and> handles os' = insert (int n) (handles os_before)))"
proof -
  have w1: "CreateFile_result wenv = Some n \<and>
      (GetCommState_result wenv = None \<or> \<not> SetCommState_ok wenv \<or>
       GetCommTimeouts_result wenv = None \<or> \<not> SetCommTimeouts_ok wenv) \<longrightarrow>
      (\<exists>g' os'. init_COM_port_win wenv portName baudRate parityBit stopBits mode wg os_before
                  = (- 1, g', os') \<and>
         int n \<notin> handles os' \<and> handles os' \<subseteq> handles os_before \<and>
         last (trace os') = Call_CloseHandle (int n))"
  proof
    assume a: "CreateFile_result wenv = Some n \<and>
      (GetCommState_result wenv = None \<or> \<not> SetCommState_ok wenv \<or>
       GetCommTimeouts_result wenv = None \<or> \<not> SetCommTimeouts_ok wenv)"
    then have c: "CreateFile_result wenv = Some n"
      and f: "GetCommState_result wenv = None \<or> \<not> SetCommState_ok wenv \<or>
       GetCommTimeouts_result wenv = None \<or> \<not> SetCommTimeouts_ok wenv" by blast+
    from init_win_step_fails[OF c f, of portName baudRate parityBit stopBits mode wg os_before]
    show "\<exists>g' os'. init_COM_port_win wenv portName baudRate parityBit stopBits mode wg os_before
                  = (- 1, g', os') \<and>
         int n \<notin> handles os' \<and> handles os' \<subseteq> handles os_before \<and>
         last (trace os') = Call_CloseHandle (int n)" by auto
  qed
  have p1: "open_result penv = Some n \<and> (tcgetattr_result penv = None \<or> \<not> tcsetattr_ok penv) \<longrightarrow>
      (\<exists>g' os'. init_COM_port_posix penv portName baudRate parityBit stopBits mode pg os_before
                  = (- 1, g', os') \<and>
         int n \<notin> handles os' \<and> handles os' \<subseteq> handles os_before \<and>
         last (trace os') = Call_close (int n))"
  proof
    assume a: "open_result penv = Some n \<and> (tcgetattr_result penv = None \<or> \<not> tcsetattr_ok penv)"
    then have c: "open_result penv = Some n"
      and f: "tcgetattr_result penv = None \<or> \<not> tcsetattr_ok penv" by blast+
    from init_posix_step_fails[OF c f, of portName baudRate parityBit stopBits mode pg os_before]
    show "\<exists>g' os'. init_COM_port_posix penv portName baudRate parityBit stopBits mode pg os_before
                  = (- 1, g', os') \<and>
         int n \<notin> handles os' \<and> handles os' \<subseteq> handles os_before \<and>
         last (trace os') = Call_close (int n)" by auto
  qed
  have w2: "init_COM_port_win wenv portName baudRate parityBit stopBits mode wg os_before = (r, wg', os') \<and>
      r \<noteq> 0 \<and> CreateFile_result wenv = Some n \<longrightarrow>
        int n \<notin> handles os' \<and> handles os' \<subseteq> handles os_before \<and>
        last (trace os') = Call_CloseHandle (int n)"
    using init_win_cases[of wenv portName baudRate parityBit stopBits mode wg os_before r wg' os']
    by auto
  have p2: "init_COM_port_posix penv portName baudRate parityBit stopBits mode pg os_before = (r, pg', os') \<and>
      r \<noteq> 0 \<and> open_result penv = Some n \<longrightarrow>
        int n \<notin> handles os' \<and> handles os' \<subseteq> handles os_before \<and>
        last (trace os') = Call_close (int n)"
    using init_posix_cases[of penv portName baudRate parityBit stopBits mode pg os_before r pg' os']
    by auto
  have w3: "CreateFile_result wenv = Some n \<and> GetCommState_result wenv = Some dcb \<and>
      SetCommState_ok wenv \<and> GetCommTimeouts_result wenv = Some t \<and>
      SetCommTimeouts_ok wenv \<longrightarrow>
      (\<exists>g' os'. init_COM_port_win wenv portName baudRate parityBit stopBits mode wg os_before
                  = (0, g', os') \<and> handles os' = insert (int n) (handles os_before))"
    using init_win_all_succeed[of wenv n dcb t portName baudRate parityBit stopBits mode wg os_before]
    by auto
  have p3: "open_result penv = Some n \<and> tcgetattr_result penv = Some tio \<and> tcsetattr_ok penv \<longrightarrow>
      (\<exists>g' os'. init_COM_port_posix penv portName baudRate parityBit stopBits mode pg os_before
                  = (0, g', os') \<and> handles os' = insert (int n) (handles os_before))"
    using init_posix_all_succeed[of penv n tio portName baudRate parityBit stopBits mode pg os_before]
    by auto
  from w1 p1 w2 p2 w3 p3 show ?thesis by (intro conjI)
qed

theorem init_COM_port_failure_releases_handle_witness:
  "CreateFile_result win_env_timeouts_fail = Some 3 \<and>
   SetCommTimeouts_ok win_env_timeouts_fail = False \<and>
   fst (init_COM_port_win win_env_timeouts_fail ''COM7'' 9600 0 1 0 win_g0 os_empty) = - 1 \<and>
   handles (snd (snd (init_COM_port_win win_env_timeouts_fail ''COM7'' 9600 0 1 0 win_g0 os_empty)))
     = {} \<and>
   last (trace (snd (snd (init_COM_port_win win_env_timeouts_fail ''COM7'' 9600 0 1 0 win_g0 os_empty))))
     = Call_CloseHandle 3 \<and>
   open_result posix_env_setattr_fail = Some 3 \<and>
   tcsetattr_ok posix_env_setattr_fail = False \<and>
   fst (init_COM_port_posix posix_env_setattr_fail ''/dev/ttyS0'' 9600 0 1 0 posix_g0 os_empty) = - 1 \<and>
   handles (snd (snd (init_COM_port_posix posix_env_setattr_fail ''/dev/ttyS0'' 9600 0 1 0 posix_g0 os_empty)))
     = {} \<and>
   last (trace (snd (snd (init_COM_port_posix posix_env_setattr_fail ''/dev/ttyS0'' 9600 0 1 0 posix_g0 os_empty))))
     = Call_close 3"
proof -
  have cw: "CreateFile_result win_env_timeouts_fail = Some 3"
    and fw: "\<not> SetCommTimeouts_ok win_env_timeouts_fail"
    by (simp_all add: win_env_timeouts_fail_def win_env_ok_def)
  have cp: "open_result posix_env_setattr_fail = Some 3"
    and fp: "\<not> tcsetattr_ok posix_env_setattr_fail"
    by (simp_all add: posix_env_setattr_fail_def posix_env_ok_def)
  note t = init_COM_port_failure_releases_handle
      [where wenv = win_env_timeouts_fail and penv = posix_env_setattr_fail and n = 3
         and portName = "''COM7''" and baudRate = 9600 and parityBit = 0 and stopBits = 1
         and mode = 0 and wg = win_g0 and pg = posix_g0 and os_before = os_empty]
  from t[THEN conjunct1] cw fw obtain g' os' where
    w: "init_COM_port_win win_env_timeouts_fail ''COM7'' 9600 0 1 0 win_g0 os_empty = (- 1, g', os')"
    and w': "handles os' \<subseteq> handles os_empty" "last (trace os') = Call_CloseHandle (int 3)"
    by auto
  from init_COM_port_failure_releases_handle
      [where penv = posix_env_setattr_fail and n = 3
         and portName = "''/dev/ttyS0''" and baudRate = 9600 and parityBit = 0 and stopBits = 1
         and mode = 0 and pg = posix_g0 and os_before = os_empty, THEN conjunct2, THEN conjunct1]
    cp fp obtain g2 os2 where
    p: "init_COM_port_posix posix_env_setattr_fail ''/dev/ttyS0'' 9600 0 1 0 posix_g0 os_empty = (- 1, g2, os2)"
    and p': "handles os2 \<subseteq> handles os_empty" "last (trace os2) = Call_close (int 3)"
    by auto
  have e: "handles os_empty = {}" by (simp add: os_empty_def)
  show ?thesis using cw fw cp fp w w' p p' e by simp
qed

section \<open>Claims about the wrapper\<close>

lemma unat_bufferLength: "unat (word_of_int bufferLength :: u16) = 500"
  by (simp add: bufferLength_def)

lemma poll_win_tick:
  "poll_COM_port_win rd g (replicate (nat bufferLength) 0) (word_of_int bufferLength) os =
     (case rd (reads_done os) of
        Win_read_ok chunk \<Rightarrow>
          (int (length (take 500 chunk)),
           fill_buffer (take 500 chunk) (replicate 500 0), after_ReadFile g os)
      | Win_read_fail e \<Rightarrow> (sint (0 - e), replicate 500 0, after_ReadFile g os))"
  by (simp add: poll_COM_port_win_def ReadFile_def after_ReadFile_def unat_bufferLength Let_def
        bufferLength_def split: win_read_outcome.split)

lemma take_fill_buffer: "take (length got) (fill_buffer got buffer) = got"
  by (simp add: fill_buffer_def)

lemma length_fill_buffer:
  "length got \<le> length buffer \<Longrightarrow> length (fill_buffer got buffer) = length buffer"
  by (simp add: fill_buffer_def)

lemma Poll_read_fail:
  assumes "rd (reads_done (w_os w)) = Win_read_fail e" and "sint (0 - e) < 0"
  shows "Poll rd this w = Some (Inl Win32Exception, w\<lparr>w_os := after_ReadFile (w_vcp w) (w_os w)\<rparr>)"
  using assms by (subst Poll.simps, subst poll_win_tick) (simp add: Let_def)

lemma Poll_read_nothing:
  assumes "rd (reads_done (w_os w)) = Win_read_ok []"
  shows "Poll rd this w = Some (Inr (), w\<lparr>w_os := after_ReadFile (w_vcp w) (w_os w)\<rparr>)"
  using assms by (subst Poll.simps, subst poll_win_tick) (simp add: Let_def)

lemma raise_DataRecived_ok:
  assumes "0 < length chunk" "length chunk \<le> 500"
  shows "raise_DataRecived this (int (length chunk)) (fill_buffer chunk (replicate 500 0)) w1
     = Inr (w1\<lparr>w_emitted := (if DataRecived this then w_emitted w1 @ [chunk] else w_emitted w1)\<rparr>)"
  using assms by (simp add: raise_DataRecived_def length_fill_buffer take_fill_buffer)

lemma Poll_read_short:
  assumes "rd (reads_done (w_os w)) = Win_read_ok chunk"
    and "0 < length chunk" and "length chunk < 500"
  shows "Poll rd this w = Some (Inr (), notified this chunk w)"
proof -
  have t: "take 500 chunk = chunk" using assms(3) by simp
  show ?thesis
    using assms raise_DataRecived_ok[of chunk this "w\<lparr>w_os := after_ReadFile (w_vcp w) (w_os w)\<rparr>"]
    by (subst Poll.simps, subst poll_win_tick) (simp add: Let_def t notified_def bufferLength_def)
qed

lemma Poll_read_full:
  assumes "rd (reads_done (w_os w)) = Win_read_ok chunk" and "length chunk = 500"
  shows "Poll rd this w = Poll rd this (notified this chunk w)"
proof -
  have t: "take 500 chunk = chunk" using assms(2) by simp
  show ?thesis
    using assms raise_DataRecived_ok[of chunk this "w\<lparr>w_os := after_ReadFile (w_vcp w) (w_os w)\<rparr>"]
    by (subst Poll.simps, subst poll_win_tick) (simp add: Let_def t notified_def bufferLength_def)
qed

lemma reads_done_notified [simp]:
  "reads_done (w_os (notified this chunk w)) = Suc (reads_done (w_os w))"
  by (simp add: notified_def after_ReadFile_def os_log_def)

lemma w_emitted_notified [simp]:
  "w_emitted (notified this chunk w) =
     (if DataRecived this then w_emitted w @ [chunk] else w_emitted w)"
  by (simp add: notified_def)

lemma w_vcp_notified [simp]: "w_vcp (notified this chunk w) = w_vcp w"
  by (simp add: notified_def)

lemma Poll_drain:
  assumes full: "\<forall>i<m. \<exists>c. rd (reads_done (w_os w) + i) = Win_read_ok c \<and> length c = 500"
    and last: "rd (reads_done (w_os w) + m) = Win_read_ok c'" and short: "length c' < 500"
  shows "\<exists>w'. Poll rd this w = Some (Inr (), w') \<and>
           reads_done (w_os w') = reads_done (w_os w) + m + 1 \<and>
           w_vcp w' = w_vcp w \<and>
           w_emitted w' =
             (if DataRecived this
              then w_emitted w @ map (\<lambda>i. read_bytes (rd (reads_done (w_os w) + i))) [0..<m]
                     @ (if c' = [] then [] else [c'])
              else w_emitted w)"
  using assms
proof (induction m arbitrary: w)
  case 0
  show ?case
  proof (cases "c' = []")
    case True
    with 0 show ?thesis
      by (simp add: Poll_read_nothing after_ReadFile_def os_log_def)
  next
    case False
    with 0 have "Poll rd this w = Some (Inr (), notified this c' w)"
      by (intro Poll_read_short) simp_all
    with False show ?thesis by simp
  qed
next
  case (Suc m)
  from Suc.prems(1) obtain c where c: "rd (reads_done (w_os w)) = Win_read_ok c" "length c = 500"
    by (metis add.right_neutral zero_less_Suc)
  let ?w = "notified this c w"
  have step: "Poll rd this w = Poll rd this ?w" using c by (rule Poll_read_full)
  have f: "\<forall>i<m. \<exists>c. rd (reads_done (w_os ?w) + i) = Win_read_ok c \<and> length c = 500"
    using Suc.prems(1) by (auto simp: less_Suc_eq_0_disj) 
  have l: "rd (reads_done (w_os ?w) + m) = Win_read_ok c'" using Suc.prems(2) by simp
  from Suc.IH[OF f l Suc.prems(3)] obtain w' where
    r: "Poll rd this ?w = Some (Inr (), w')"
    and n: "reads_done (w_os w') = reads_done (w_os ?w) + m + 1"
    and v: "w_vcp w' = w_vcp ?w"
    and e: "w_emitted w' =
             (if DataRecived this
              then w_emitted ?w @ map (\<lambda>i. read_bytes (rd (reads_done (w_os ?w) + i))) [0..<m]
                     @ (if c' = [] then [] else [c'])
              else w_emitted ?w)" by blast
  have shift: "map (\<lambda>i. read_bytes (rd (reads_done (w_os w) + i))) [0..<Suc m]
      = c # map (\<lambda>i. read_bytes (rd (Suc (reads_done (w_os w)) + i))) [0..<m]"
    using c(1) by (simp add: upt_conv_Cons map_Suc_upt[symmetric] del: upt_Suc)
  show ?case
    using r n v e unfolding step shift by simp
qed

lemma Poll_no_handler_keeps:
  assumes "Poll rd this w = Some res"
  shows "\<not> DataRecived this \<longrightarrow> w_emitted (snd res) = w_emitted w \<and> w_vcp (snd res) = w_vcp w"
proof (rule Poll.raw_induct
    [where P = "\<lambda>rd this w res. \<not> DataRecived this \<longrightarrow>
                  w_emitted (snd res) = w_emitted w \<and> w_vcp (snd res) = w_vcp w"])
  show "Poll rd this w = Some res" by (rule assms)
next
  fix poll :: "(nat \<Rightarrow> win_read_outcome) \<Rightarrow> Port \<Rightarrow> world \<Rightarrow> ((exn + unit) \<times> world) option"
  fix rd this w res
  assume ih: "\<And>rd this w res. poll rd this w = Some res \<Longrightarrow>
                 \<not> DataRecived this \<longrightarrow>
                 w_emitted (snd res) = w_emitted w \<and> w_vcp (snd res) = w_vcp w"
    and eq: "(case poll_COM_port_win rd (w_vcp w) (replicate (nat bufferLength) 0)
             (word_of_int bufferLength) (w_os w) of
        (bytesRecived, buffer, os') \<Rightarrow>
          (let w1 = w\<lparr>w_os := os'\<rparr> in
           if bytesRecived < 0 then Some (Inl Win32Exception, w1)
           else if bytesRecived > 0 then
             (case raise_DataRecived this bytesRecived buffer w1 of
                Inl e \<Rightarrow> Some (Inl e, w1)
              | Inr w2 \<Rightarrow>
                  if bytesRecived = bufferLength then poll rd this w2
                  else Some (Inr (), w2))
           else Some (Inr (), w1))) = Some res"
  show "\<not> DataRecived this \<longrightarrow> w_emitted (snd res) = w_emitted w \<and> w_vcp (snd res) = w_vcp w"
  proof
    assume nh: "\<not> DataRecived this"
    obtain n buffer os' where p: "poll_COM_port_win rd (w_vcp w) (replicate (nat bufferLength) 0)
             (word_of_int bufferLength) (w_os w) = (n, buffer, os')" by (metis prod_cases3)
    have rdr: "raise_DataRecived this n buffer (w\<lparr>w_os := os'\<rparr>) = Inr (w\<lparr>w_os := os'\<rparr>)"
      using nh by (simp add: raise_DataRecived_def)
    show "w_emitted (snd res) = w_emitted w \<and> w_vcp (snd res) = w_vcp w"
      using eq nh ih[of rd this "w\<lparr>w_os := os'\<rparr>" res]
      by (auto simp: p rdr Let_def split: if_splits)
  qed
qed


lemma Poll_returns_bounded:
  assumes "Poll rd this w = Some res"
  shows "\<not> (\<forall>i. \<exists>c. rd (reads_done (w_os w) + i) = Win_read_ok c \<and> length c = 500)"
proof (rule Poll.raw_induct
    [where P = "\<lambda>rd this w res.
       \<not> (\<forall>i. \<exists>c. rd (reads_done (w_os w) + i) = Win_read_ok c \<and> length c = 500)"])
  show "Poll rd this w = Some res" by (rule assms)
next
  fix poll :: "(nat \<Rightarrow> win_read_outcome) \<Rightarrow> Port \<Rightarrow> world \<Rightarrow> ((exn + unit) \<times> world) option"
  fix rd this w res
  assume ih: "\<And>rd this w res. poll rd this w = Some res \<Longrightarrow>
       \<not> (\<forall>i. \<exists>c. rd (reads_done (w_os w) + i) = Win_read_ok c \<and> length c = 500)"
    and eq: "(case poll_COM_port_win rd (w_vcp w) (replicate (nat bufferLength) 0)
             (word_of_int bufferLength) (w_os w) of
        (bytesRecived, buffer, os') \<Rightarrow>
          (let w1 = w\<lparr>w_os := os'\<rparr> in
           if bytesRecived < 0 then Some (Inl Win32Exception, w1)
           else if bytesRecived > 0 then
             (case raise_DataRecived this bytesRecived buffer w1 of
                Inl e \<Rightarrow> Some (Inl e, w1)
              | Inr w2 \<Rightarrow>
                  if bytesRecived = bufferLength then poll rd this w2
                  else Some (Inr (), w2))
           else Some (Inr (), w1))) = Some res"
  show "\<not> (\<forall>i. \<exists>c. rd (reads_done (w_os w) + i) = Win_read_ok c \<and> length c = 500)"
  proof
    assume all: "\<forall>i. \<exists>c. rd (reads_done (w_os w) + i) = Win_read_ok c \<and> length c = 500"
    then obtain c where c: "rd (reads_done (w_os w)) = Win_read_ok c" "length c = 500"
      by (metis add.right_neutral)
    have t: "take 500 c = c" using c(2) by simp
    from eq[unfolded poll_win_tick] c raise_DataRecived_ok[of c this "w\<lparr>w_os := after_ReadFile (w_vcp w) (w_os w)\<rparr>"]
    have "poll rd this (notified this c w) = Some res"
      by (cases "DataRecived this") (simp_all add: t Let_def notified_def bufferLength_def)
    from ih[OF this] obtain i where
      "\<not> (\<exists>c. rd (Suc (reads_done (w_os w)) + i) = Win_read_ok c \<and> length c = 500)"
      by auto
    with all[rule_format, of "Suc i"] show False by simp
  qed
qed

lemma Poll_unbounded_drain:
  assumes "\<forall>i. \<exists>c. rd (reads_done (w_os w) + i) = Win_read_ok c \<and> length c = 500"
  shows "Poll rd this w = None"
proof (cases "Poll rd this w")
  case (Some res)
  from Poll_returns_bounded[OF this] assms show ?thesis by simp
qed simp


lemma Poll_one_byte_no_handler:
  "Poll (rd_of [Win_read_ok [0x78]]) port_open world0
     = Some (Inr (), notified port_open [0x78] world0)"
  by (rule Poll_read_short) (simp_all add: rd_of_def world0_def os_empty_def)

lemma Poll_fail_after_full:
  "Poll (rd_of [Win_read_ok (replicate 500 1), Win_read_fail 5]) port_listening world0
     = Some (Inl Win32Exception,
         (notified port_listening (replicate 500 1) world0)
           \<lparr>w_os := after_ReadFile (w_vcp (notified port_listening (replicate 500 1) world0))
                       (w_os (notified port_listening (replicate 500 1) world0))\<rparr>)"
proof -
  let ?rd = "rd_of [Win_read_ok (replicate 500 1), Win_read_fail 5]"
  let ?w = "notified port_listening (replicate 500 1) world0"
  have "Poll ?rd port_listening world0 = Poll ?rd port_listening ?w"
    by (rule Poll_read_full) (simp_all add: rd_of_def world0_def os_empty_def)
  moreover have "Poll ?rd port_listening ?w =
      Some (Inl Win32Exception, ?w\<lparr>w_os := after_ReadFile (w_vcp ?w) (w_os ?w)\<rparr>)"
    by (rule Poll_read_fail[where e = 5]) (simp_all add: rd_of_def world0_def os_empty_def)
  ultimately show ?thesis by simp
qed


text \<open>
  C2 (as amended). For every poll tick of a Port on which a handler is registered, with
  scratch-buffer capacity \<open>N = bufferLength = 500\<close>: if the read returns 0 bytes, no
  notification is emitted and the tick ends; if it returns \<open>k\<close> bytes with
  \<open>1 \<le> k \<le> N - 1\<close>, exactly one notification is emitted, whose bytes are exactly the
  \<open>k\<close> bytes read, and the tick ends; if it returns exactly \<open>N\<close> bytes, the
  notification for those bytes is emitted and the Port polls again at once; and when
  \<open>m\<close> saturated reads are followed by a read of fewer than \<open>N\<close> bytes, the tick
  returns after \<open>m + 1\<close> reads, having emitted one notification per saturated read and
  one for the last read unless it was empty.
\<close>

theorem Poll_tick_notifications:
  assumes "DataRecived this"
  shows
   "(rd (reads_done (w_os w)) = Win_read_ok [] \<longrightarrow>
       Poll rd this w = Some (Inr (), w\<lparr>w_os := after_ReadFile (w_vcp w) (w_os w)\<rparr>)) \<and>
    (rd (reads_done (w_os w)) = Win_read_ok chunk \<and>
       1 \<le> length chunk \<and> length chunk \<le> nat bufferLength - 1 \<longrightarrow>
       Poll rd this w =
         Some (Inr (), w\<lparr>w_os := after_ReadFile (w_vcp w) (w_os w),
                          w_emitted := w_emitted w @ [chunk]\<rparr>)) \<and>
    (rd (reads_done (w_os w)) = Win_read_ok chunk \<and> length chunk = nat bufferLength \<longrightarrow>
       Poll rd this w =
         Poll rd this (w\<lparr>w_os := after_ReadFile (w_vcp w) (w_os w),
                         w_emitted := w_emitted w @ [chunk]\<rparr>)) \<and>
    ((\<forall>i<m. \<exists>c. rd (reads_done (w_os w) + i) = Win_read_ok c \<and> length c = nat bufferLength) \<and>
       rd (reads_done (w_os w) + m) = Win_read_ok c' \<and> length c' < nat bufferLength \<longrightarrow>
       (\<exists>w'. Poll rd this w = Some (Inr (), w') \<and>
             reads_done (w_os w') = reads_done (w_os w) + m + 1 \<and>
             w_emitted w' =
               w_emitted w @ map (\<lambda>i. read_bytes (rd (reads_done (w_os w) + i))) [0..<m]
                 @ (if c' = [] then [] else [c'])))"
proof (intro conjI impI)
  assume "rd (reads_done (w_os w)) = Win_read_ok []"
  then show "Poll rd this w = Some (Inr (), w\<lparr>w_os := after_ReadFile (w_vcp w) (w_os w)\<rparr>)"
    by (rule Poll_read_nothing)
next
  assume a: "rd (reads_done (w_os w)) = Win_read_ok chunk \<and>
       1 \<le> length chunk \<and> length chunk \<le> nat bufferLength - 1"
  then have "Poll rd this w = Some (Inr (), notified this chunk w)"
    by (intro Poll_read_short) (auto simp: bufferLength_def)
  then show "Poll rd this w =
         Some (Inr (), w\<lparr>w_os := after_ReadFile (w_vcp w) (w_os w),
                          w_emitted := w_emitted w @ [chunk]\<rparr>)"
    using assms by (simp add: notified_def)
next
  assume a: "rd (reads_done (w_os w)) = Win_read_ok chunk \<and> length chunk = nat bufferLength"
  then have "Poll rd this w = Poll rd this (notified this chunk w)"
    by (intro Poll_read_full) (simp_all add: bufferLength_def)
  then show "Poll rd this w =
         Poll rd this (w\<lparr>w_os := after_ReadFile (w_vcp w) (w_os w),
                         w_emitted := w_emitted w @ [chunk]\<rparr>)"
    using assms by (simp add: notified_def)
next
  assume a: "(\<forall>i<m. \<exists>c. rd (reads_done (w_os w) + i) = Win_read_ok c \<and> length c = nat bufferLength) \<and>
       rd (reads_done (w_os w) + m) = Win_read_ok c' \<and> length c' < nat bufferLength"
  then have "\<forall>i<m. \<exists>c. rd (reads_done (w_os w) + i) = Win_read_ok c \<and> length c = 500"
    and "rd (reads_done (w_os w) + m) = Win_read_ok c'" and "length c' < 500"
    by (simp_all add: bufferLength_def)
  from Poll_drain[OF this, of this] assms
  show "\<exists>w'. Poll rd this w = Some (Inr (), w') \<and>
             reads_done (w_os w') = reads_done (w_os w) + m + 1 \<and>
             w_emitted w' =
               w_emitted w @ map (\<lambda>i. read_bytes (rd (reads_done (w_os w) + i))) [0..<m]
                 @ (if c' = [] then [] else [c'])"
    by auto
qed

theorem Poll_tick_notifications_witness:
  "DataRecived port_listening \<and>
   emitted_by (Poll (rd_of [Win_read_ok (replicate 500 1), Win_read_ok [2, 3]]) port_listening world0)
     = Some [replicate 500 1, [2, 3]] \<and>
   outcome_of (Poll (rd_of [Win_read_ok (replicate 500 1), Win_read_ok [2, 3]]) port_listening world0)
     = Some (Inr ())"
proof -
  let ?rd = "rd_of [Win_read_ok (replicate 500 1), Win_read_ok [2, 3]]"
  have h: "DataRecived port_listening"
    by (simp add: port_listening_def port_open_def port0_def)
  have k: "reads_done (w_os world0) = 0" by (simp add: world0_def os_empty_def)
  have pre: "(\<forall>i<1. \<exists>c. ?rd (reads_done (w_os world0) + i) = Win_read_ok c \<and> length c = nat bufferLength) \<and>
       ?rd (reads_done (w_os world0) + 1) = Win_read_ok [2, 3] \<and> length [2::u8, 3] < nat bufferLength"
    by (simp add: k rd_of_def bufferLength_def)
  from Poll_tick_notifications[OF h, of ?rd world0 _ 1 "[2, 3]"] pre
  obtain w' where "Poll ?rd port_listening world0 = Some (Inr (), w')"
    and "w_emitted w' = w_emitted world0 @ map (\<lambda>i. read_bytes (?rd (reads_done (w_os world0) + i))) [0..<1]
                 @ [[2, 3]]"
    by auto
  moreover have "w_emitted world0 = []" by (simp add: world0_def)
  ultimately show ?thesis using h
    by (simp add: emitted_by_def outcome_of_def k rd_of_def)
qed


text \<open>
  C2 as stated fails when no handler is registered: the guard
  \<^verbatim>\<open>if(DataRecived != null)\<close> skips the notification, so a tick that reads one byte
  emits nothing.
\<close>

theorem Poll_without_handler_counterexample:
  "emitted_by (Poll (rd_of [Win_read_ok [0x78]]) port_open world0) = Some [] \<and>
   emitted_by (Poll (rd_of [Win_read_ok [0x78]]) port_open world0) \<noteq> Some [[0x78]]"
proof -
  have "\<not> DataRecived port_open" by (simp add: port_open_def port0_def)
  moreover have "w_emitted world0 = []" by (simp add: world0_def)
  ultimately show ?thesis
    by (simp add: Poll_one_byte_no_handler emitted_by_def)
qed


text \<open>
  C9 (as amended). When the read of a poll tick fails (with an error code the operating
  system reports, between 1 and \<open>2^31 - 1\<close>), \<^verbatim>\<open>Poll\<close> raises a \<^verbatim>\<open>Win32Exception\<close> on the
  timer's polling task and delivers nothing through the notification channel: the
  notifications are those that existed before the failing read.
\<close>

theorem Poll_read_failure_raises:
  "rd (reads_done (w_os w)) = Win_read_fail e \<and> 0 < e \<and> uint e < 2 ^ 31 \<longrightarrow>
     Poll rd this w = Some (Inl Win32Exception, w\<lparr>w_os := after_ReadFile (w_vcp w) (w_os w)\<rparr>) \<and>
     emitted_by (Poll rd this w) = Some (w_emitted w)"
proof
  assume a: "rd (reads_done (w_os w)) = Win_read_fail e \<and> 0 < e \<and> uint e < 2 ^ 31"
  then have "uint e < 2 ^ 31" by simp
  then have "sint (0 - e) = - uint e" by (rule sint_neg_dword)
  moreover have "e \<noteq> 0" using a by auto
  then have "0 < uint e" by (rule uint_pos_dword)
  ultimately have "sint (0 - e) < 0" by simp
  with a have "Poll rd this w = Some (Inl Win32Exception, w\<lparr>w_os := after_ReadFile (w_vcp w) (w_os w)\<rparr>)"
    by (intro Poll_read_fail) simp_all
  then show "Poll rd this w = Some (Inl Win32Exception, w\<lparr>w_os := after_ReadFile (w_vcp w) (w_os w)\<rparr>) \<and>
     emitted_by (Poll rd this w) = Some (w_emitted w)"
    by (simp add: emitted_by_def)
qed

theorem Poll_read_failure_raises_witness:
  "outcome_of (Poll (rd_of [Win_read_fail 5]) port_listening world0) = Some (Inl Win32Exception) \<and>
   reads_done (w_os world0) = 0"
  using Poll_read_failure_raises[of "rd_of [Win_read_fail 5]" world0 5 port_listening]
  by (simp add: rd_of_def world0_def os_empty_def outcome_of_def)


text \<open>
  C9 as stated fails: with a handler registered and a read that fails with code 5, the
  tick ends in an exception and the notification channel has carried nothing.
\<close>

theorem Poll_read_failure_counterexample:
  "outcome_of (Poll (rd_of [Win_read_fail 5]) port_listening world0) = Some (Inl Win32Exception) \<and>
   emitted_by (Poll (rd_of [Win_read_fail 5]) port_listening world0) = Some [] \<and>
   DataRecived port_listening"
proof -
  have "Poll (rd_of [Win_read_fail 5]) port_listening world0
      = Some (Inl Win32Exception, world0\<lparr>w_os := after_ReadFile (w_vcp world0) (w_os world0)\<rparr>)"
    by (rule Poll_read_fail[where e = 5]) (simp_all add: rd_of_def world0_def os_empty_def)
  moreover have "DataRecived port_listening"
    by (simp add: port_listening_def port_open_def port0_def)
  moreover have "w_emitted world0 = []" by (simp add: world0_def)
  ultimately show ?thesis
    by (simp add: outcome_of_def emitted_by_def)
qed


text \<open>
  C10. If no handler is registered, a poll tick that returns has changed nothing but
  the state of the operating system: no notification exists and nothing was kept for
  later delivery. A read that filled the buffer exactly is still followed at once by
  another poll, and \<open>m\<close> saturated reads followed by a shorter one are all consumed
  (\<open>m + 1\<close> reads) while the notifications stay as they were.
\<close>

theorem Poll_without_handler_discards:
  assumes "\<not> DataRecived this"
  shows
   "(Poll rd this w = Some res \<longrightarrow> snd res = w\<lparr>w_os := w_os (snd res)\<rparr>) \<and>
    (rd (reads_done (w_os w)) = Win_read_ok chunk \<and> length chunk = nat bufferLength \<longrightarrow>
       Poll rd this w = Poll rd this (w\<lparr>w_os := after_ReadFile (w_vcp w) (w_os w)\<rparr>)) \<and>
    ((\<forall>i<m. \<exists>c. rd (reads_done (w_os w) + i) = Win_read_ok c \<and> length c = nat bufferLength) \<and>
       rd (reads_done (w_os w) + m) = Win_read_ok c' \<and> length c' < nat bufferLength \<longrightarrow>
       (\<exists>w'. Poll rd this w = Some (Inr (), w') \<and>
             reads_done (w_os w') = reads_done (w_os w) + m + 1 \<and>
             w_emitted w' = w_emitted w))"
proof (intro conjI impI)
  assume "Poll rd this w = Some res"
  from Poll_no_handler_keeps[OF this] assms
  have "w_emitted (snd res) = w_emitted w" "w_vcp (snd res) = w_vcp w" by simp_all
  then show "snd res = w\<lparr>w_os := w_os (snd res)\<rparr>" by simp
next
  assume a: "rd (reads_done (w_os w)) = Win_read_ok chunk \<and> length chunk = nat bufferLength"
  then have "Poll rd this w = Poll rd this (notified this chunk w)"
    by (intro Poll_read_full) (simp_all add: bufferLength_def)
  then show "Poll rd this w = Poll rd this (w\<lparr>w_os := after_ReadFile (w_vcp w) (w_os w)\<rparr>)"
    using assms by (simp add: notified_def)
next
  assume a: "(\<forall>i<m. \<exists>c. rd (reads_done (w_os w) + i) = Win_read_ok c \<and> length c = nat bufferLength) \<and>
       rd (reads_done (w_os w) + m) = Win_read_ok c' \<and> length c' < nat bufferLength"
  then have "\<forall>i<m. \<exists>c. rd (reads_done (w_os w) + i) = Win_read_ok c \<and> length c = 500"
    and "rd (reads_done (w_os w) + m) = Win_read_ok c'" and "length c' < 500"
    by (simp_all add: bufferLength_def)
  from Poll_drain[OF this, of this] assms
  show "\<exists>w'. Poll rd this w = Some (Inr (), w') \<and>
             reads_done (w_os w') = reads_done (w_os w) + m + 1 \<and>
             w_emitted w' = w_emitted w"
    by auto
qed

theorem Poll_without_handler_discards_witness:
  "\<not> DataRecived port_open \<and>
   emitted_by (Poll (rd_of [Win_read_ok (replicate 500 1), Win_read_ok [2, 3]]) port_open world0)
     = Some [] \<and>
   map_option (\<lambda>r. reads_done (w_os (snd r)))
     (Poll (rd_of [Win_read_ok (replicate 500 1), Win_read_ok [2, 3]]) port_open world0) = Some 2"
proof -
  let ?rd = "rd_of [Win_read_ok (replicate 500 1), Win_read_ok [2, 3]]"
  have h: "\<not> DataRecived port_open" by (simp add: port_open_def port0_def)
  have k: "reads_done (w_os world0) = 0" by (simp add: world0_def os_empty_def)
  have pre: "(\<forall>i<1. \<exists>c. ?rd (reads_done (w_os world0) + i) = Win_read_ok c \<and> length c = nat bufferLength) \<and>
       ?rd (reads_done (w_os world0) + 1) = Win_read_ok [2, 3] \<and> length [2::u8, 3] < nat bufferLength"
    by (simp add: k rd_of_def bufferLength_def)
  from Poll_without_handler_discards
         [OF h, where rd = ?rd and w = world0 and m = 1 and c' = "[2, 3]",
          THEN conjunct2, THEN conjunct2, THEN mp, OF pre]
  obtain w' where "Poll ?rd port_open world0 = Some (Inr (), w')"
    and "reads_done (w_os w') = reads_done (w_os world0) + 1 + 1"
    and "w_emitted w' = w_emitted world0"
    by auto
  moreover have "w_emitted world0 = []" by (simp add: world0_def)
  ultimately show ?thesis using h
    by (simp add: emitted_by_def k)
qed


lemma close_win_twice:
  "close_COM_port_win (fst (close_COM_port_win g os)) (snd (close_COM_port_win g os)) =
     (fst (close_COM_port_win g os),
      os_release INVALID_HANDLE_VALUE
        (os_log (Call_CloseHandle INVALID_HANDLE_VALUE)
          (os_log (Call_SetCommTimeouts INVALID_HANDLE_VALUE (TIMEOUTinitial g))
            (os_log (Call_SetCommState INVALID_HANDLE_VALUE (DCBinitial g))
              (snd (close_COM_port_win g os))))))"
  by (simp add: close_COM_port_win_def Let_def)

lemma close_posix_twice:
  "close_COM_port_posix (fst (close_COM_port_posix g os)) (snd (close_COM_port_posix g os)) =
     (fst (close_COM_port_posix g os),
      os_release (- 1)
        (os_log (Call_close (- 1))
          (os_log (Call_tcsetattr (- 1) TCSAFLUSH (termiosInitial g))
            (snd (close_COM_port_posix g os)))))"
  by (simp add: close_COM_port_posix_def Let_def)

text \<open>
  C7 (as amended). Calling \<^verbatim>\<open>Port.Close\<close> twice in succession is idempotent: the second
  call changes neither the Port nor the world, so it performs no operating-system
  operation, and \<^verbatim>\<open>Close\<close> has no way to raise. The C function \<^verbatim>\<open>close_COM_port\<close> has no
  such guard: called a second time it leaves the statics as they are, but issues the
  restore and release calls again, on the invalidated handle.
\<close>

theorem close_twice:
  "Port_Close (fst (Port_Close this w)) (snd (Port_Close this w)) = Port_Close this w \<and>
   close_COM_port_win (fst (close_COM_port_win wg os)) (snd (close_COM_port_win wg os)) =
     (fst (close_COM_port_win wg os),
      os_release INVALID_HANDLE_VALUE
        (os_log (Call_CloseHandle INVALID_HANDLE_VALUE)
          (os_log (Call_SetCommTimeouts INVALID_HANDLE_VALUE (TIMEOUTinitial wg))
            (os_log (Call_SetCommState INVALID_HANDLE_VALUE (DCBinitial wg))
              (snd (close_COM_port_win wg os)))))) \<and>
   close_COM_port_posix (fst (close_COM_port_posix pg os)) (snd (close_COM_port_posix pg os)) =
     (fst (close_COM_port_posix pg os),
      os_release (- 1)
        (os_log (Call_close (- 1))
          (os_log (Call_tcsetattr (- 1) TCSAFLUSH (termiosInitial pg))
            (snd (close_COM_port_posix pg os)))))"
  by (simp add: close_win_twice close_posix_twice Port_Close_def split: prod.splits)

theorem close_twice_witness:
  "Port_Close (fst (Port_Close port_open world0)) (snd (Port_Close port_open world0))
     = Port_Close port_open world0 \<and>
   trace (w_os (snd (Port_Close port_open world0)))
     = [Call_SetCommState 0 dcb0, Call_SetCommTimeouts 0 timeouts0, Call_CloseHandle 0]"
  using close_twice[of port_open world0]
  by (simp add: Port_Close_def port_open_def port0_def world0_def close_COM_port_win_def
        win_g0_def os_empty_def os_log_def os_release_def Let_def)

text \<open>
  C7 as stated fails on \<^verbatim>\<open>close_COM_port\<close>: the second call makes two more calls to the
  operating system (three on Windows).
\<close>

theorem close_COM_port_twice_counterexample:
  "trace (snd (close_COM_port_posix (fst (close_COM_port_posix posix_g0 os_empty))
                                  (snd (close_COM_port_posix posix_g0 os_empty))))
     = trace (snd (close_COM_port_posix posix_g0 os_empty))
         @ [Call_tcsetattr (- 1) TCSAFLUSH termios0, Call_close (- 1)] \<and>
   trace (snd (close_COM_port_posix (fst (close_COM_port_posix posix_g0 os_empty))
                                  (snd (close_COM_port_posix posix_g0 os_empty))))
     \<noteq> trace (snd (close_COM_port_posix posix_g0 os_empty))"
  by (simp add: close_COM_port_posix_def posix_g0_def os_empty_def os_log_def os_release_def Let_def)

text \<open>
  C8 (as amended). Every \<^verbatim>\<open>Port.SendBytes\<close> of a buffer whose length is 0 or greater than
  255 is rejected with one of the exceptions of the specification's \<open>UsageError\<close>, and
  the world is unchanged: no write primitive of the operating system is invoked. The C
  function \<^verbatim>\<open>COM_port_send_buffer\<close> makes no such check: given the length 0 it calls
  the write primitive with an empty buffer.
\<close>

theorem SendBytes_rejects_bad_length:
  "(length bytes = 0 \<or> 255 < length bytes \<longrightarrow>
      (\<exists>e. Port_SendBytes wr this (Some bytes) w = (Inl e, w) \<and> is_UsageError e)) \<and>
   snd (COM_port_send_buffer_win wr g buffer 0 os) = os_log (Call_WriteFile (hComm g) []) os \<and>
   snd (COM_port_send_buffer_posix pwr pg buffer 0 os) = os_log (Call_write (hComm_fd pg) []) os"
  by (auto simp: Port_SendBytes_def COM_port_send_buffer_win_def COM_port_send_buffer_posix_def Let_def
      split: win_write_outcome.splits posix_write_outcome.splits)

theorem SendBytes_rejects_bad_length_witness:
  "Port_SendBytes (Win_write_ok 0) port_open (Some []) world0
     = (Inl (ArgumentException ''data must contain 1 or more bytes.''), world0) \<and>
   Port_SendBytes (Win_write_ok 256) port_open (Some (replicate 256 0)) world0
     = (Inl (ArgumentException ''data must be less than 255 bytes in length.''), world0)"
  using SendBytes_rejects_bad_length[of "[]" "Win_write_ok 0" port_open world0]
        SendBytes_rejects_bad_length[of "replicate 256 0" "Win_write_ok 256" port_open world0]
  by (simp add: Port_SendBytes_def port_open_def port0_def)

text \<open>
  C8 as stated fails on \<^verbatim>\<open>COM_port_send_buffer\<close>: a send of length 0 reaches
  \<^verbatim>\<open>WriteFile\<close>.
\<close>

theorem send_buffer_zero_length_counterexample:
  "trace (snd (COM_port_send_buffer_win (Win_write_ok 0) win_g0 [] 0 os_empty))
     = [Call_WriteFile 0 []] \<and>
   trace (snd (COM_port_send_buffer_win (Win_write_ok 0) win_g0 [] 0 os_empty))
     \<noteq> trace os_empty"
  by (simp add: COM_port_send_buffer_win_def win_g0_def os_empty_def os_log_def Let_def)

lemma BinarySearch_BaudRates_110: "BinarySearch BaudRates 110 = 0"
  by (simp add: BinarySearch_def BaudRates_def Let_def)

lemma Port_new_accepts_others:
  "baudRate \<in> set BaudRates \<Longrightarrow> baudRate \<noteq> 110 \<Longrightarrow>
   Port_new portName baudRate parityBit stopBits =
     Inr \<lparr>PortName = portName, BaudRate = baudRate, Parity = parityBit,
          StopBits = stopBits, PortOpen = False, DataRecived = False,
          dataPoller_Enabled = False\<rparr>"
  by (auto simp: Port_new_def BinarySearch_def BaudRates_def Let_def)

declare BinarySearch_loop.simps [simp del]

lemma BinarySearch_loop_found:
  "0 \<le> lo \<Longrightarrow> 0 \<le> BinarySearch_loop array x lo hi \<Longrightarrow>
     array ! nat (BinarySearch_loop array x lo hi) = x \<and>
     lo \<le> BinarySearch_loop array x lo hi \<and> BinarySearch_loop array x lo hi \<le> hi"
proof (induction array x lo hi rule: BinarySearch_loop.induct)
  case (1 array x lo hi)
  show ?case
  proof (cases "lo \<le> hi")
    case False
    with "1.prems" show ?thesis by (simp add: BinarySearch_loop.simps[of array x lo hi])
  next
    case True
    define i where "i = lo + (hi - lo) div 2"
    have ib: "lo \<le> i" "i \<le> hi" using True by (simp_all add: i_def)
    show ?thesis
    proof (cases "array ! nat i = x")
      case True
      with \<open>lo \<le> hi\<close> ib show ?thesis
        by (simp add: BinarySearch_loop.simps[of array x lo hi] Let_def i_def[symmetric])
    next
      case ne: False
      show ?thesis
      proof (cases "array ! nat i < x")
        case True
        have eq: "BinarySearch_loop array x lo hi = BinarySearch_loop array x (i + 1) hi"
          using \<open>lo \<le> hi\<close> ne True
          by (simp add: BinarySearch_loop.simps[of array x lo hi] Let_def i_def[symmetric])
        have "0 \<le> i + 1" using ib "1.prems" by simp
        from "1.IH"(1)[OF \<open>lo \<le> hi\<close> i_def ne True this] "1.prems"(2) ib
        show ?thesis by (simp add: eq)
      next
        case False
        have eq: "BinarySearch_loop array x lo hi = BinarySearch_loop array x lo (i - 1)"
          using \<open>lo \<le> hi\<close> ne False
          by (simp add: BinarySearch_loop.simps[of array x lo hi] Let_def i_def[symmetric])
        from "1.IH"(2)[OF \<open>lo \<le> hi\<close> i_def ne False "1.prems"(1)] "1.prems"(2) ib
        show ?thesis by (simp add: eq)
      qed
    qed
  qed
qed

lemma BinarySearch_found_in_array:
  assumes "0 \<le> BinarySearch array x"
  shows "x \<in> set array"
proof -
  let ?r = "BinarySearch_loop array x 0 (int (length array) - 1)"
  from assms have r: "0 \<le> ?r" by (simp add: BinarySearch_def)
  from BinarySearch_loop_found[OF _ r] have "array ! nat ?r = x" "?r \<le> int (length array) - 1"
    by simp_all
  with r have "nat ?r < length array" by simp
  with \<open>array ! nat ?r = x\<close> show ?thesis by (metis nth_mem)
qed

lemma Port_new_rejects_unlisted:
  "baudRate \<notin> set BaudRates \<Longrightarrow>
   Port_new portName baudRate parityBit stopBits = Inl (ArgumentException ''Unsupported baudRate.'')"
  using BinarySearch_found_in_array[of BaudRates baudRate] by (auto simp: Port_new_def)

lemma init_win_unlisted_rate:
  "baudRate \<notin> set BaudRno_win \<Longrightarrow>
   dcb_BaudRate (win_settings initial baudRate parityBit stopBits) = dcb_BaudRate initial"
  by (simp add: win_settings_def BaudRno_win_def BaudR_win_def Let_def)

text \<open>
  A Port that the constructor accepted opens and closes without raising when every
  call to the operating system succeeds, and the handle it acquired is released.
\<close>

lemma Port_Open_Close_succeeds:
  assumes "\<not> PortOpen this" and "PortName this = Some name"
    and "CreateFile_result env = Some n" and "GetCommState_result env = Some dcb"
    and "SetCommState_ok env" and "GetCommTimeouts_result env = Some t"
    and "SetCommTimeouts_ok env" and "int n \<notin> handles (w_os w)"
  shows "case Port_Open env this w of (r, this', w') \<Rightarrow>
           r = Inr () \<and> PortOpen this' \<and> int n \<in> handles (w_os w') \<and>
           (case Port_Close this' w' of (this'', w'') \<Rightarrow>
              \<not> PortOpen this'' \<and> handles (w_os w'') = handles (w_os w))"
  using assms
  by (simp add: Port_Open_def Port_Close_def init_COM_port_win_def close_COM_port_win_def
        Let_def os_log_def os_acquire_def os_release_def)


text \<open>
  C3. The constructor of \<^verbatim>\<open>Port\<close> accepts a rate only when
  \<^verbatim>\<open>Array.BinarySearch(BaudRates, baudRate) > 0\<close>. The rate 110 is in the table, at
  index 0, so the search returns 0 and the constructor raises \<^verbatim>\<open>ArgumentException\<close>
  for a supported rate: a Port for 110 baud can never be opened.
\<close>

theorem Port_new_rejects_110:
  "110 \<in> set BaudRates \<and> 110 \<in> set BaudRno_win \<and> BinarySearch BaudRates 110 = 0 \<and>
   Port_new portName 110 parityBit stopBits = Inl (ArgumentException ''Unsupported baudRate.'')"
  by (simp add: Port_new_def BinarySearch_BaudRates_110) (simp add: BaudRates_def BaudRno_win_def)


end
